theory Spec2Isabelle
  imports Main
begin

section \<open>The SingleStore document store: data model\<close>

text \<open>
  A shallow embedding of \<^verbatim>\<open>SingleStoreDocumentStore\<close> (document_store.py). The class talks
  to three external libraries: the database connector (through a pooled connection and a
  cursor), \<^verbatim>\<open>json\<close> and \<^verbatim>\<open>urllib.parse\<close>. None of them is code of the repository, so each
  is a parameter of the model: the functions below are the Python methods, written over an
  arbitrary connector, and a reference table (further down) gives the connector the
  behaviour of one SQL table with a primary key.
\<close>

subsection \<open>Exceptions\<close>

text \<open>
  The exceptions the class raises itself, and \<open>StoreError cls msg\<close> for an exception of
  any other class \<open>cls\<close> coming out of an external library, with \<open>msg\<close> its \<^verbatim>\<open>str()\<close>.
\<close>

datatype error =
    DuplicateDocumentError string
  | MissingDocumentError string
  | ValueError string
  | StoreError string string

fun str_of :: "error \<Rightarrow> string" where
  "str_of (DuplicateDocumentError m) = m"
| "str_of (MissingDocumentError m) = m"
| "str_of (ValueError m) = m"
| "str_of (StoreError c m) = m"

text \<open>Python's \<^verbatim>\<open>sub in s\<close> on strings: \<open>sub\<close> occurs in \<open>s\<close> as a contiguous block.\<close>

primrec str_contains :: "string \<Rightarrow> string \<Rightarrow> bool" where
  "str_contains [] sub = (sub = [])"
| "str_contains (c # cs) sub = (take (length sub) (c # cs) = sub \<or> str_contains cs sub)"

subsection \<open>Documents and the duplicate policy\<close>

text \<open>
  \<^verbatim>\<open>haystack.Document\<close> as the class uses it: the fields \<^verbatim>\<open>id\<close>, \<^verbatim>\<open>content\<close> and
  \<^verbatim>\<open>metadata\<close>. The metadata is a Python object that only \<^verbatim>\<open>json.dumps\<close> and
  \<^verbatim>\<open>json.loads\<close> ever look into, hence a type parameter.
\<close>

record 'v document =
  doc_id :: string
  content :: string
  metadata :: 'v

text \<open>\<^verbatim>\<open>haystack.document_stores.types.DuplicatePolicy\<close>, all four members.\<close>

datatype DuplicatePolicy = NONE | SKIP | OVERWRITE | FAIL

subsection \<open>Statements, cursor and connector\<close>

text \<open>
  One constructor per SQL text the class sends, carrying the parameter tuple. All
  statements address the adapter's one table; its three columns are positional (id,
  content, metadata). A \<open>Select\<close> is different: the filter keys are written into its
  SQL text, so it carries that text as the class builds it, and the parameter tuple.
\<close>

datatype statement =
    CreateTable
  | Insert string string string
  | Replace string string string
  | Delete string
  | Select string "string list"

type_synonym row = "string \<times> string \<times> string"

text \<open>
  Python objects as far as the configuration of the adapter holds them: \<^verbatim>\<open>None\<close>,
  booleans, integers and strings (a \<^verbatim>\<open>timeout\<close> given as a float is outside the model).
\<close>

datatype pyval = PNone | PBool bool | PInt int | PStr string

text \<open>\<^verbatim>\<open>str()\<close> of a Python object, as an f-string formats it.\<close>

definition digit :: "nat \<Rightarrow> char" where
  "digit n = ''0123456789'' ! n"

function str_nat :: "nat \<Rightarrow> string" where
  "str_nat n = (if n < 10 then [digit n] else str_nat (n div 10) @ [digit (n mod 10)])"
  by pat_completeness auto
termination
  by (relation "measure (\<lambda>n. n)") auto

fun py_str :: "pyval \<Rightarrow> string" where
  "py_str PNone = ''None''"
| "py_str (PBool b) = (if b then ''True'' else ''False'')"
| "py_str (PInt n) = (if n < 0 then ''-'' @ str_nat (nat (- n)) else str_nat (nat n))"
| "py_str (PStr s) = s"

text \<open>\<^verbatim>\<open>sep.join(xs)\<close> on strings.\<close>

fun join_strs :: "string \<Rightarrow> string list \<Rightarrow> string" where
  "join_strs sep [] = []"
| "join_strs sep [x] = x"
| "join_strs sep (x # y # ys) = x @ sep @ join_strs sep (y # ys)"

text \<open>
  The connector and the JSON codec. \<open>execute\<close> runs one statement on the database state
  \<open>'db\<close>: it raises, or it reports the row count and the rows for \<^verbatim>\<open>fetchall\<close>; either way
  it hands back the database state it leaves behind. \<open>pool_connect\<close> is
  \<^verbatim>\<open>connection_pool.connect()\<close>, whose creator calls \<^verbatim>\<open>singlestoredb.connect\<close> with the
  adapter's connection parameters.
\<close>

record ('v, 'db) env =
  json_dumps :: "'v \<Rightarrow> error + string"
  json_loads :: "string \<Rightarrow> error + 'v"
  pool_connect :: "(string \<rightharpoonup> pyval) \<Rightarrow> 'db \<Rightarrow> error option"
  execute :: "statement \<Rightarrow> 'db \<Rightarrow> (error + int \<times> row list) \<times> 'db"

text \<open>
  A DB-API cursor: the database it works on, the statements it has been sent (as the
  mock cursor of the test suite records them), and the result of the last statement.
\<close>

record 'db cursor =
  store :: 'db
  executed :: "statement list"
  rowcount :: int
  fetchall :: "row list"

definition new_cursor :: "'db \<Rightarrow> 'db cursor" where
  "new_cursor db = \<lparr>store = db, executed = [], rowcount = - 1, fetchall = []\<rparr>"

text \<open>\<^verbatim>\<open>cur.execute(...)\<close>: the exception raised, if any, and the cursor afterwards.\<close>

definition cur_execute ::
  "('v, 'db) env \<Rightarrow> statement \<Rightarrow> 'db cursor \<Rightarrow> error option \<times> 'db cursor" where
  "cur_execute env stmt cur =
     (case execute env stmt (store cur) of
        (Inl e, db') \<Rightarrow> (Some e, cur\<lparr>store := db', executed := executed cur @ [stmt]\<rparr>)
      | (Inr (n, rs), db') \<Rightarrow>
          (None, \<lparr>store = db', executed = executed cur @ [stmt], rowcount = n, fetchall = rs\<rparr>))"

subsection \<open>The adapter\<close>

record adapter =
  table_name :: pyval
  content_field :: pyval
  metadata_field :: pyval
  id_field :: pyval
  pool_size :: pyval
  max_overflow :: pyval
  timeout :: pyval
  connection_kwargs :: "string \<rightharpoonup> pyval"

section \<open>write_documents\<close>

text \<open>
  The body of the \<^verbatim>\<open>try\<close> in the loop: the argument tuple is built first (so
  \<^verbatim>\<open>json.dumps\<close> may raise inside the \<^verbatim>\<open>try\<close>), then the INSERT is sent.
\<close>

definition try_insert ::
  "('v, 'db) env \<Rightarrow> 'v document \<Rightarrow> 'db cursor \<Rightarrow> error option \<times> 'db cursor" where
  "try_insert env doc cur =
     (case json_dumps env (metadata doc) of
        Inl e \<Rightarrow> (Some e, cur)
      | Inr js \<Rightarrow> cur_execute env (Insert (doc_id doc) (content doc) js) cur)"

text \<open>The REPLACE of the OVERWRITE branch; it runs inside the handler, unguarded.\<close>

definition try_replace ::
  "('v, 'db) env \<Rightarrow> 'v document \<Rightarrow> 'db cursor \<Rightarrow> error option \<times> 'db cursor" where
  "try_replace env doc cur =
     (case json_dumps env (metadata doc) of
        Inl e \<Rightarrow> (Some e, cur)
      | Inr js \<Rightarrow> cur_execute env (Replace (doc_id doc) (content doc) js) cur)"

text \<open>
  The \<^verbatim>\<open>for doc in documents\<close> loop with its counter. The handler's chain of
  \<^verbatim>\<open>if\<close>/\<^verbatim>\<open>elif\<close> has no final \<^verbatim>\<open>else\<close>: a policy that is none of the three falls
  out of the handler and the loop goes on.
\<close>

fun write_loop ::
  "('v, 'db) env \<Rightarrow> DuplicatePolicy \<Rightarrow> 'v document list \<Rightarrow> int \<Rightarrow> 'db cursor
     \<Rightarrow> (error + int) \<times> 'db cursor" where
  "write_loop env policy [] count cur = (Inr count, cur)"
| "write_loop env policy (doc # docs) count cur =
     (case try_insert env doc cur of
        (None, cur1) \<Rightarrow> write_loop env policy docs (count + 1) cur1
      | (Some e, cur1) \<Rightarrow>
          if str_contains (str_of e) ''Duplicate entry'' then
            (if policy = FAIL then
               (Inl (DuplicateDocumentError
                  (''Document with id '' @ doc_id doc @ '' already exists.'')), cur1)
             else if policy = SKIP then write_loop env policy docs count cur1
             else if policy = OVERWRITE then
               (case try_replace env doc cur1 of
                  (Some e', cur2) \<Rightarrow> (Inl e', cur2)
                | (None, cur2) \<Rightarrow> write_loop env policy docs (count + 1) cur2)
             else write_loop env policy docs count cur1)
          else (Inl e, cur1))"

text \<open>
  \<^verbatim>\<open>write_documents\<close>: a connection from the pool, a fresh cursor, the loop. The two
  \<^verbatim>\<open>finally\<close> blocks close cursor and connection on every path and change nothing the
  model records. The result is the value returned or the exception raised, with the
  cursor as the call left it. The parameter \<^verbatim>\<open>policy\<close> defaults to FAIL in the source; here
  it is always given.
\<close>

definition write_documents ::
  "('v, 'db) env \<Rightarrow> adapter \<Rightarrow> 'v document list \<Rightarrow> DuplicatePolicy \<Rightarrow> 'db
     \<Rightarrow> (error + int) \<times> 'db cursor" where
  "write_documents env a documents policy db =
     (case pool_connect env (connection_kwargs a) db of
        Some e \<Rightarrow> (Inl e, new_cursor db)
      | None \<Rightarrow> write_loop env policy documents 0 (new_cursor db))"

section \<open>delete_documents\<close>

text \<open>
  The loop of \<^verbatim>\<open>delete_documents\<close>: one DELETE per id, in the order of the list, and
  \<^verbatim>\<open>cur.rowcount\<close> read after each. \<^verbatim>\<open>MissingDocumentError\<close> is raised outside any
  handler, so it (or an exception of the DELETE itself) ends the loop.
\<close>

definition missing_message :: "string \<Rightarrow> string" where
  "missing_message i = ''Document with id '' @ [CHR 0x27] @ i @ [CHR 0x27] @ '' not found.''"

fun delete_loop ::
  "('v, 'db) env \<Rightarrow> string list \<Rightarrow> 'db cursor \<Rightarrow> error option \<times> 'db cursor" where
  "delete_loop env [] cur = (None, cur)"
| "delete_loop env (i # ids) cur =
     (case cur_execute env (Delete i) cur of
        (Some e, cur1) \<Rightarrow> (Some e, cur1)
      | (None, cur1) \<Rightarrow>
          if rowcount cur1 = 0 then (Some (MissingDocumentError (missing_message i)), cur1)
          else delete_loop env ids cur1)"

definition delete_documents ::
  "('v, 'db) env \<Rightarrow> adapter \<Rightarrow> string list \<Rightarrow> 'db \<Rightarrow> error option \<times> 'db cursor" where
  "delete_documents env a document_ids db =
     (case pool_connect env (connection_kwargs a) db of
        Some e \<Rightarrow> (Some e, new_cursor db)
      | None \<Rightarrow> delete_loop env document_ids (new_cursor db))"

section \<open>filter_documents\<close>

text \<open>
  The SQL text of the query. The f-strings write the adapter's names, and each filter
  key, into the text as they are: the key stands between the two quotes of a string
  literal, after \<^verbatim>\<open>$.\<close>, with no escaping.
\<close>

definition select_sql :: "adapter \<Rightarrow> string" where
  "select_sql a =
     ''SELECT '' @ py_str (id_field a) @ '', '' @ py_str (content_field a) @ '', ''
       @ py_str (metadata_field a) @ '' FROM '' @ py_str (table_name a)"

definition clause_open :: "adapter \<Rightarrow> string" where
  "clause_open a = ''JSON_EXTRACT('' @ py_str (metadata_field a) @ '', '' @ [CHR 0x27] @ ''$.''"

definition clause_close :: string where
  "clause_close = [CHR 0x27] @ '') = %s''"

definition clause_sql :: "adapter \<Rightarrow> string \<Rightarrow> string" where
  "clause_sql a k = clause_open a @ k @ clause_close"

text \<open>
  The loop over \<^verbatim>\<open>filters.items()\<close>: it appends one clause text per key to
  \<^verbatim>\<open>where_clauses\<close> and \<^verbatim>\<open>json.dumps(value)\<close> to \<^verbatim>\<open>params\<close>. A dictionary is the list of
  its items in iteration order.
\<close>

fun where_clauses ::
  "('v, 'db) env \<Rightarrow> adapter \<Rightarrow> (string \<times> 'v) list \<Rightarrow> error + string list \<times> string list" where
  "where_clauses env a [] = Inr ([], [])"
| "where_clauses env a ((k, v) # items) =
     (case json_dumps env v of
        Inl e \<Rightarrow> Inl e
      | Inr p \<Rightarrow>
          (case where_clauses env a items of
             Inl e \<Rightarrow> Inl e
           | Inr (cs, ps) \<Rightarrow> Inr (clause_sql a k # cs, p # ps)))"

text \<open>The loop over the fetched rows: \<^verbatim>\<open>json.loads\<close> on the metadata column of each.\<close>

fun decode_rows :: "('v, 'db) env \<Rightarrow> row list \<Rightarrow> error + 'v document list" where
  "decode_rows env [] = Inr []"
| "decode_rows env ((i, c, m) # rs) =
     (case json_loads env m of
        Inl e \<Rightarrow> Inl e
      | Inr md \<Rightarrow>
          (case decode_rows env rs of
             Inl e \<Rightarrow> Inl e
           | Inr ds \<Rightarrow> Inr (\<lparr>doc_id = i, content = c, metadata = md\<rparr> # ds)))"

text \<open>
  \<^verbatim>\<open>filter_documents\<close>. \<^verbatim>\<open>if filters:\<close> is false for \<^verbatim>\<open>None\<close> and for the empty
  dictionary; both send the SELECT with no WHERE. Otherwise the clause texts are joined
  by \<^verbatim>\<open> AND \<close> and appended after \<^verbatim>\<open> WHERE \<close>.
\<close>

definition filter_documents ::
  "('v, 'db) env \<Rightarrow> adapter \<Rightarrow> (string \<times> 'v) list option \<Rightarrow> 'db
     \<Rightarrow> (error + 'v document list) \<times> 'db cursor" where
  "filter_documents env a filters db =
     (case pool_connect env (connection_kwargs a) db of
        Some e \<Rightarrow> (Inl e, new_cursor db)
      | None \<Rightarrow>
          (case (case filters of
                   None \<Rightarrow> Inr (select_sql a, [])
                 | Some items \<Rightarrow>
                     if items = [] then Inr (select_sql a, [])
                     else (case where_clauses env a items of
                             Inl e \<Rightarrow> Inl e
                           | Inr (cs, ps) \<Rightarrow>
                               Inr (if cs = [] then select_sql a
                                    else select_sql a @ '' WHERE '' @ join_strs '' AND '' cs,
                                    ps))) of
             Inl e \<Rightarrow> (Inl e, new_cursor db)
           | Inr (query, params) \<Rightarrow>
               (case cur_execute env (Select query params) (new_cursor db) of
                  (Some e, cur) \<Rightarrow> (Inl e, cur)
                | (None, cur) \<Rightarrow>
                    (case decode_rows env (fetchall cur) of
                       Inl e \<Rightarrow> (Inl e, cur)
                     | Inr docs \<Rightarrow> (Inr docs, cur)))))"

section \<open>Construction and serialisation\<close>

text \<open>
  What \<^verbatim>\<open>_parse_uri\<close> reads of \<^verbatim>\<open>urlparse(uri)\<close>. The \<^verbatim>\<open>port\<close> property raises
  \<^verbatim>\<open>ValueError\<close> on a port that is not a number in range, hence a sum.
\<close>

record parsed_uri =
  hostname :: "string option"
  port :: "error + int option"
  username :: "string option"
  password :: "string option"
  path :: string

definition opt_str :: "string option \<Rightarrow> pyval" where
  "opt_str s = (case s of None \<Rightarrow> PNone | Some x \<Rightarrow> PStr x)"

text \<open>\<^verbatim>\<open>s.strip(c)\<close> for a single character \<open>c\<close>.\<close>

definition strip_char :: "char \<Rightarrow> string \<Rightarrow> string" where
  "strip_char c s = rev (dropWhile (\<lambda>x. x = c) (rev (dropWhile (\<lambda>x. x = c) s)))"

text \<open>
  \<^verbatim>\<open>_parse_uri\<close>, on the dictionary \<^verbatim>\<open>self.connection_kwargs\<close>. \<^verbatim>\<open>parsed.port or 3306\<close>
  takes 3306 for \<^verbatim>\<open>None\<close> and for the port 0.
\<close>

definition parse_uri ::
  "(pyval \<Rightarrow> error + parsed_uri) \<Rightarrow> pyval \<Rightarrow> (string \<rightharpoonup> pyval)
     \<Rightarrow> error + (string \<rightharpoonup> pyval)" where
  "parse_uri urlparse uri kw =
     (case urlparse uri of
        Inl e \<Rightarrow> Inl e
      | Inr parsed \<Rightarrow>
          (case port parsed of
             Inl e \<Rightarrow> Inl e
           | Inr po \<Rightarrow>
               (let kw4 = kw(''host'' \<mapsto> opt_str (hostname parsed),
                             ''port'' \<mapsto> PInt (case po of
                                                  None \<Rightarrow> 3306
                                                | Some n \<Rightarrow> if n = 0 then 3306 else n),
                             ''user'' \<mapsto> opt_str (username parsed),
                             ''password'' \<mapsto> opt_str (password parsed))
                in Inr (if path parsed \<noteq> [] \<and> path parsed \<noteq> ''/''
                        then kw4(''database'' \<mapsto> PStr (strip_char CHR ''/'' (path parsed)))
                        else kw4))))"

text \<open>Truth value of a Python object, as \<^verbatim>\<open>if uri:\<close> takes it.\<close>

fun truthy :: "pyval \<Rightarrow> bool" where
  "truthy PNone = False"
| "truthy (PBool b) = b"
| "truthy (PInt n) = (n \<noteq> 0)"
| "truthy (PStr s) = (s \<noteq> [])"

text \<open>\<^verbatim>\<open>_create_table\<close>: a pooled connection, a cursor, the CREATE TABLE IF NOT EXISTS.\<close>

definition create_table ::
  "('v, 'db) env \<Rightarrow> adapter \<Rightarrow> 'db \<Rightarrow> error option \<times> 'db cursor" where
  "create_table env a db =
     (case pool_connect env (connection_kwargs a) db of
        Some e \<Rightarrow> (Some e, new_cursor db)
      | None \<Rightarrow> cur_execute env CreateTable (new_cursor db))"

text \<open>
  The named parameters of \<^verbatim>\<open>__init__\<close>. A call binds a keyword of one of these names to
  the parameter and collects every other keyword in \<^verbatim>\<open>**kwargs\<close>.
\<close>

definition param_names :: "string set" where
  "param_names = {''uri'', ''table_name'', ''content_field'', ''metadata_field'', ''id_field'',
                  ''pool_size'', ''max_overflow'', ''timeout''}"

definition arg :: "(string \<rightharpoonup> pyval) \<Rightarrow> string \<Rightarrow> pyval \<Rightarrow> pyval" where
  "arg args name dflt = (case args name of None \<Rightarrow> dflt | Some v \<Rightarrow> v)"

text \<open>
  \<^verbatim>\<open>__init__\<close>, called with keyword arguments \<open>args\<close> (as \<^verbatim>\<open>cls(**data)\<close> calls it).
  \<open>queue_pool\<close> is the constructor of \<^verbatim>\<open>QueuePool\<close>: the exception it raises on the three
  pool parameters, if any; it opens no connection. \<open>db\<close> is the database before the call;
  the result carries the database after it.
\<close>

definition init ::
  "(pyval \<Rightarrow> error + parsed_uri) \<Rightarrow> (pyval \<Rightarrow> pyval \<Rightarrow> pyval \<Rightarrow> error option)
     \<Rightarrow> ('v, 'db) env \<Rightarrow> (string \<rightharpoonup> pyval) \<Rightarrow> 'db \<Rightarrow> (error + adapter) \<times> 'db" where
  "init urlparse queue_pool env args db =
     (let uri = arg args ''uri'' PNone;
          kwargs = args |` (- param_names)
      in case (if truthy uri then parse_uri urlparse uri kwargs else Inr kwargs) of
           Inl e \<Rightarrow> (Inl e, db)
         | Inr ck \<Rightarrow>
             (let a = \<lparr>table_name = arg args ''table_name'' (PStr ''documents''),
                       content_field = arg args ''content_field'' (PStr ''content''),
                       metadata_field = arg args ''metadata_field'' (PStr ''metadata''),
                       id_field = arg args ''id_field'' (PStr ''id''),
                       pool_size = arg args ''pool_size'' (PInt 5),
                       max_overflow = arg args ''max_overflow'' (PInt 10),
                       timeout = arg args ''timeout'' (PInt 30),
                       connection_kwargs = ck\<rparr>
              in case queue_pool (pool_size a) (max_overflow a) (timeout a) of
                   Some e \<Rightarrow> (Inl e, db)
                 | None \<Rightarrow>
                     (case create_table env a db of
                        (Some e, cur) \<Rightarrow> (Inl e, store cur)
                      | (None, cur) \<Rightarrow> (Inr a, store cur))))"

text \<open>
  \<^verbatim>\<open>to_dict\<close>: the dictionary display lists the eight fixed entries first and unpacks
  \<^verbatim>\<open>**self.connection_kwargs\<close> last, so an entry of the connection parameters replaces a
  fixed entry of the same key.
\<close>

definition to_dict :: "adapter \<Rightarrow> (string \<rightharpoonup> pyval)" where
  "to_dict a =
     [''type'' \<mapsto> PStr ''SingleStoreDocumentStore'',
      ''table_name'' \<mapsto> table_name a,
      ''content_field'' \<mapsto> content_field a,
      ''metadata_field'' \<mapsto> metadata_field a,
      ''id_field'' \<mapsto> id_field a,
      ''pool_size'' \<mapsto> pool_size a,
      ''max_overflow'' \<mapsto> max_overflow a,
      ''timeout'' \<mapsto> timeout a] ++ connection_kwargs a"

text \<open>
  \<^verbatim>\<open>from_dict\<close>: \<^verbatim>\<open>data.pop("type", None)\<close>, the comparison with the class name, then
  \<^verbatim>\<open>cls(**data)\<close> on what is left.
\<close>

definition from_dict ::
  "(pyval \<Rightarrow> error + parsed_uri) \<Rightarrow> (pyval \<Rightarrow> pyval \<Rightarrow> pyval \<Rightarrow> error option)
     \<Rightarrow> ('v, 'db) env \<Rightarrow> (string \<rightharpoonup> pyval) \<Rightarrow> 'db \<Rightarrow> (error + adapter) \<times> 'db" where
  "from_dict urlparse queue_pool env data db =
     (let store_type = (case data ''type'' of None \<Rightarrow> PNone | Some v \<Rightarrow> v);
          data' = data(''type'' := None)
      in if store_type \<noteq> PStr ''SingleStoreDocumentStore''
         then (Inl (ValueError (''Incompatible document store type: '' @ py_str store_type)), db)
         else init urlparse queue_pool env data' db)"

section \<open>A reference table\<close>

text \<open>
  The database behind the connector, for the claims that speak of rows: one table whose
  first column is the primary key. INSERT of a key that is present raises the server's
  error 1062, whose text starts \<^verbatim>\<open>Duplicate entry\<close>, and changes nothing; REPLACE removes
  the row of that key and adds the new one; DELETE reports the number of rows it removed.
\<close>

type_synonym table = "row list"

definition duplicate_entry :: "string \<Rightarrow> error" where
  "duplicate_entry i =
     StoreError ''IntegrityError''
       (''Duplicate entry '' @ [CHR 0x27] @ i @ [CHR 0x27] @ '' for key '' @ [CHR 0x27]
          @ ''PRIMARY'' @ [CHR 0x27])"

text \<open>
  How the server reads a SELECT. It knows the text that selects the three columns of its
  table (\<open>select_text\<close>) and how a clause on a member of the metadata column opens
  (\<open>clause_opening\<close>). It reads the text as the conjunction the class means when each
  clause is \<^verbatim>\<open>JSON_EXTRACT(<column>, '$.<name>') = %s\<close> with \<open>name\<close> a plain member name:
  letters, digits and underscores. On a row with metadata text \<open>m\<close>, such a clause with
  the bound parameter \<open>p\<close> holds when \<open>member_is m name p\<close>. What the server does with any
  other text (a literal cut short by a quote in a key, a path with dots or brackets, a
  \<^verbatim>\<open>%\<close> that shifts the parameters) is \<open>otherwise\<close>.
\<close>

record server =
  select_text :: string
  clause_opening :: string
  member_is :: "string \<Rightarrow> string \<Rightarrow> string \<Rightarrow> bool"
  otherwise :: "string \<Rightarrow> string list \<Rightarrow> table \<Rightarrow> error + int \<times> row list"

definition plain_char :: "char \<Rightarrow> bool" where
  "plain_char c \<longleftrightarrow>
     c \<in> set ''abcdefghijklmnopqrstuvwxyzABCDEFGHIJKLMNOPQRSTUVWXYZ0123456789_''"

definition plain_key :: "string \<Rightarrow> bool" where
  "plain_key k \<longleftrightarrow> k \<noteq> [] \<and> list_all plain_char k"

fun strip_prefix :: "string \<Rightarrow> string \<Rightarrow> string option" where
  "strip_prefix [] s = Some s"
| "strip_prefix (p # ps) [] = None"
| "strip_prefix (p # ps) (c # cs) = (if p = c then strip_prefix ps cs else None)"

text \<open>The member names of a conjunction of clauses, when the text is one.\<close>

function read_clauses :: "string \<Rightarrow> string \<Rightarrow> string list option" where
  "read_clauses start s =
     (case strip_prefix start s of
        None \<Rightarrow> None
      | Some r \<Rightarrow>
          if takeWhile plain_char r = [] then None
          else (case strip_prefix clause_close (dropWhile plain_char r) of
                  None \<Rightarrow> None
                | Some r' \<Rightarrow>
                    if r' = [] then Some [takeWhile plain_char r]
                    else (case strip_prefix '' AND '' r' of
                            None \<Rightarrow> None
                          | Some r'' \<Rightarrow>
                              map_option (\<lambda>ns. takeWhile plain_char r # ns)
                                (read_clauses start r''))))"
  by pat_completeness auto
termination
proof (relation "measure (\<lambda>(start, s). length s)")
  show "wf (measure (\<lambda>(start, s). length s))" by simp
next
  fix start s r r' r'' :: string
  assume a: "strip_prefix start s = Some r"
    and b: "strip_prefix clause_close (dropWhile plain_char r) = Some r'"
    and c: "strip_prefix '' AND '' r' = Some r''"
  have sp: "x = p @ y" if "strip_prefix p x = Some y" for p x y :: string
    using that by (induction p x rule: strip_prefix.induct) (auto split: if_splits)
  have "length r \<le> length s" using sp [OF a] by simp
  moreover have "length (dropWhile plain_char r) \<le> length r" by (rule length_dropWhile_le)
  moreover have "length r' \<le> length (dropWhile plain_char r)" using sp [OF b] by simp
  moreover have "length r'' < length r'" using sp [OF c] by simp
  ultimately show "((start, r''), (start, s)) \<in> measure (\<lambda>(start, s). length s)"
    by simp
qed

definition read_select :: "server \<Rightarrow> string \<Rightarrow> string list option" where
  "read_select srv q =
     (case strip_prefix (select_text srv) q of
        None \<Rightarrow> None
      | Some w \<Rightarrow>
          if w = [] then Some []
          else (case strip_prefix '' WHERE '' w of
                  None \<Rightarrow> None
                | Some cl \<Rightarrow> read_clauses (clause_opening srv) cl))"

definition row_matches :: "server \<Rightarrow> (string \<times> string) list \<Rightarrow> row \<Rightarrow> bool" where
  "row_matches srv cs r = list_all (\<lambda>(n, p). member_is srv (snd (snd r)) n p) cs"

text \<open>
  SELECT returns, in table order, the rows on which every clause holds with its
  parameter, when the text reads as a conjunction with as many clauses as parameters.
\<close>

definition select_rows ::
  "server \<Rightarrow> string \<Rightarrow> string list \<Rightarrow> table \<Rightarrow> error + int \<times> row list" where
  "select_rows srv q ps t =
     (case read_select srv q of
        None \<Rightarrow> otherwise srv q ps t
      | Some names \<Rightarrow>
          if length names = length ps
          then Inr (int (length (filter (row_matches srv (zip names ps)) t)),
                    filter (row_matches srv (zip names ps)) t)
          else otherwise srv q ps t)"

fun table_execute ::
  "server \<Rightarrow> statement \<Rightarrow> table \<Rightarrow> (error + int \<times> row list) \<times> table" where
  "table_execute srv CreateTable t = (Inr (0, []), t)"
| "table_execute srv (Insert i c m) t =
     (if i \<in> set (map fst t) then (Inl (duplicate_entry i), t)
      else (Inr (1, []), t @ [(i, c, m)]))"
| "table_execute srv (Replace i c m) t =
     (Inr (1 + int (length (filter (\<lambda>r. fst r = i) t)), []),
      filter (\<lambda>r. fst r \<noteq> i) t @ [(i, c, m)])"
| "table_execute srv (Delete i) t =
     (Inr (int (length (filter (\<lambda>r. fst r = i) t)), []), filter (\<lambda>r. fst r \<noteq> i) t)"
| "table_execute srv (Select q ps) t = (select_rows srv q ps t, t)"

definition table_env ::
  "('v \<Rightarrow> error + string) \<Rightarrow> (string \<Rightarrow> error + 'v) \<Rightarrow> server \<Rightarrow> ('v, table) env" where
  "table_env dumps loads srv =
     \<lparr>json_dumps = dumps, json_loads = loads, pool_connect = (\<lambda>kw t. None),
      execute = table_execute srv\<rparr>"

text \<open>
  JSON values (numbers other than integers left out), and the server of an adapter's
  table: it reads the texts that adapter writes, and a clause on the member \<open>k\<close> with
  parameter \<open>p\<close> holds on a row when the stored metadata text decodes to an object that has
  the top-level key \<open>k\<close> and the JSON text of the value under that key is \<open>p\<close>.
\<close>

datatype json =
    JNull
  | JBool bool
  | JInt int
  | JStr string
  | JList "json list"
  | JObj "(string \<times> json) list"

definition member_text :: "(json \<Rightarrow> error + string) \<Rightarrow> json \<Rightarrow> string \<Rightarrow> string option" where
  "member_text dumps v k =
     (case v of
        JObj kvs \<Rightarrow>
          (case map_of kvs k of
             None \<Rightarrow> None
           | Some x \<Rightarrow> (case dumps x of Inl e \<Rightarrow> None | Inr s \<Rightarrow> Some s))
      | _ \<Rightarrow> None)"

definition json_member_is ::
  "(string \<Rightarrow> error + json) \<Rightarrow> (json \<Rightarrow> error + string) \<Rightarrow> string \<Rightarrow> string \<Rightarrow> string \<Rightarrow> bool" where
  "json_member_is loads dumps m k p =
     (case loads m of Inl e \<Rightarrow> False | Inr v \<Rightarrow> member_text dumps v k = Some p)"

definition adapter_server ::
  "adapter \<Rightarrow> (string \<Rightarrow> error + json) \<Rightarrow> (json \<Rightarrow> error + string)
     \<Rightarrow> (string \<Rightarrow> string list \<Rightarrow> table \<Rightarrow> error + int \<times> row list) \<Rightarrow> server" where
  "adapter_server a loads dumps other =
     \<lparr>select_text = select_sql a, clause_opening = clause_open a,
      member_is = json_member_is loads dumps, otherwise = other\<rparr>"

section \<open>Worked data\<close>

text \<open>
  A small instance of the parameters, for the worked examples that follow the theorems:
  \<^verbatim>\<open>json.dumps\<close> on values in which no string needs an escape, \<^verbatim>\<open>json.loads\<close> on the texts
  of a given list of values, and the server of the test suite's adapter, which answers a
  text it cannot read with a syntax error.
\<close>

definition quoted :: "string \<Rightarrow> string" where
  "quoted s = [CHR 0x22] @ s @ [CHR 0x22]"

fun flat_text :: "json \<Rightarrow> string" where
  "flat_text JNull = ''null''"
| "flat_text (JBool b) = (if b then ''true'' else ''false'')"
| "flat_text (JInt n) = py_str (PInt n)"
| "flat_text (JStr s) = quoted s"
| "flat_text (JList vs) = ''['' @ join_strs '', '' (map flat_text vs) @ '']''"
| "flat_text (JObj kvs) =
     ''{'' @ join_strs '', '' (map (\<lambda>kv. quoted (fst kv) @ '': '' @ flat_text (snd kv)) kvs)
       @ ''}''"

definition flat_dumps :: "json \<Rightarrow> error + string" where
  "flat_dumps v = Inr (flat_text v)"

definition flat_loads :: "json list \<Rightarrow> string \<Rightarrow> error + json" where
  "flat_loads known s =
     (case find (\<lambda>v. flat_text v = s) known of
        Some v \<Rightarrow> Inr v
      | None \<Rightarrow> Inl (StoreError ''JSONDecodeError'' ''Expecting value''))"

definition example_adapter :: adapter where
  "example_adapter =
     \<lparr>table_name = PStr ''test_documents'', content_field = PStr ''content'',
      metadata_field = PStr ''metadata'', id_field = PStr ''id'', pool_size = PInt 5,
      max_overflow = PInt 10, timeout = PInt 30,
      connection_kwargs = [''host'' \<mapsto> PStr ''localhost'', ''port'' \<mapsto> PInt 3306,
                           ''user'' \<mapsto> PNone, ''password'' \<mapsto> PNone,
                           ''database'' \<mapsto> PStr ''test'']\<rparr>"

definition doc1 :: "json document" where
  "doc1 = \<lparr>doc_id = ''1'', content = ''A'', metadata = JObj [(''k'', JStr ''x'')]\<rparr>"

definition doc2 :: "json document" where
  "doc2 = \<lparr>doc_id = ''2'', content = ''B'', metadata = JObj [(''k'', JStr ''y'')]\<rparr>"

definition doc3 :: "json document" where
  "doc3 = \<lparr>doc_id = ''3'', content = ''C'',
           metadata = JObj [(''k'', JStr ''x''), (''lang'', JStr ''en'')]\<rparr>"

definition doc1' :: "json document" where
  "doc1' = \<lparr>doc_id = ''1'', content = ''Z'', metadata = JObj [(''k'', JStr ''z'')]\<rparr>"

text \<open>A document whose metadata has a key with a quote in it: \<^verbatim>\<open>{"a'b": "x"}\<close>.\<close>

definition quote_key :: string where
  "quote_key = ''a'' @ [CHR 0x27] @ ''b''"

definition doc4 :: "json document" where
  "doc4 = \<lparr>doc_id = ''4'', content = ''D'', metadata = JObj [(quote_key, JStr ''x'')]\<rparr>"

definition known_meta :: "json list" where
  "known_meta = [JObj [(''k'', JStr ''x'')], JObj [(''k'', JStr ''y'')],
                 JObj [(''k'', JStr ''x''), (''lang'', JStr ''en'')], JObj [(''k'', JStr ''z'')],
                 JObj [(quote_key, JStr ''x'')]]"

definition syntax_error :: error where
  "syntax_error = StoreError ''ProgrammingError'' ''You have an error in your SQL syntax''"

definition example_server :: server where
  "example_server =
     adapter_server example_adapter (flat_loads known_meta) flat_dumps
       (\<lambda>q ps t. Inl syntax_error)"

definition example_env :: "(json, table) env" where
  "example_env = table_env flat_dumps (flat_loads known_meta) example_server"

definition row_of :: "json document \<Rightarrow> row" where
  "row_of d = (doc_id d, content d, flat_text (metadata d))"

text \<open>
  A table of bounded size, for an error that is not a key conflict: once \<open>q\<close> rows are
  stored, an INSERT of a new key and a REPLACE raise the server's \<^verbatim>\<open>table is full\<close>.
\<close>

definition table_full :: error where
  "table_full = StoreError ''OperationalError'' ''The table is full''"

fun full_execute :: "nat \<Rightarrow> statement \<Rightarrow> table \<Rightarrow> (error + int \<times> row list) \<times> table" where
  "full_execute q (Insert i c m) t =
     (if i \<in> set (map fst t) then (Inl (duplicate_entry i), t)
      else if q \<le> length t then (Inl table_full, t)
      else table_execute example_server (Insert i c m) t)"
| "full_execute q (Replace i c m) t =
     (if q \<le> length t then (Inl table_full, t)
      else table_execute example_server (Replace i c m) t)"
| "full_execute q stmt t = table_execute example_server stmt t"

definition full_env :: "nat \<Rightarrow> (json, table) env" where
  "full_env q =
     \<lparr>json_dumps = flat_dumps, json_loads = flat_loads known_meta,
      pool_connect = (\<lambda>kw t. None), execute = full_execute q\<rparr>"

text \<open>
  Stand-ins for the two remaining libraries: \<^verbatim>\<open>urlparse\<close> on the URI of the test suite
  (any other argument is refused), and a \<^verbatim>\<open>QueuePool\<close> constructor that accepts every
  pool parameter.
\<close>

definition example_urlparse :: "pyval \<Rightarrow> error + parsed_uri" where
  "example_urlparse uri =
     (if uri = PStr ''mock://localhost:3306/test''
      then Inr \<lparr>hostname = Some ''localhost'', port = Inr (Some 3306), username = None,
                password = None, path = ''/test''\<rparr>
      else if uri = PStr ''mock://localhost''
      then Inr \<lparr>hostname = Some ''localhost'', port = Inr None, username = None,
                password = None, path = []\<rparr>
      else Inl (ValueError ''not a URI of the examples''))"

definition any_pool :: "pyval \<Rightarrow> pyval \<Rightarrow> pyval \<Rightarrow> error option" where
  "any_pool ps mo tmo = None"

text \<open>
  The adapter \<^verbatim>\<open>__init__\<close> builds when every named parameter is left at its default, and a
  connector that cannot reach its server.
\<close>

definition default_adapter :: "(string \<rightharpoonup> pyval) \<Rightarrow> adapter" where
  "default_adapter kw =
     \<lparr>table_name = PStr ''documents'', content_field = PStr ''content'',
      metadata_field = PStr ''metadata'', id_field = PStr ''id'', pool_size = PInt 5,
      max_overflow = PInt 10, timeout = PInt 30, connection_kwargs = kw\<rparr>"

definition connection_refused :: error where
  "connection_refused = StoreError ''OperationalError'' ''Connection refused''"

definition unexpected_keyword :: error where
  "unexpected_keyword =
     StoreError ''TypeError'' ''connect() got an unexpected keyword argument''"

text \<open>A connector that, like \<^verbatim>\<open>singlestoredb.connect\<close>, has no parameter named \<^verbatim>\<open>type\<close>.\<close>

definition strict_env :: "(json, table) env" where
  "strict_env =
     \<lparr>json_dumps = flat_dumps, json_loads = flat_loads known_meta,
      pool_connect = (\<lambda>kw t. if kw ''type'' = None then None else Some unexpected_keyword),
      execute = table_execute example_server\<rparr>"

definition offline_env :: "(json, table) env" where
  "offline_env =
     \<lparr>json_dumps = flat_dumps, json_loads = flat_loads known_meta,
      pool_connect = (\<lambda>kw t. Some connection_refused),
      execute = table_execute example_server\<rparr>"

section \<open>Properties\<close>

text \<open>
  Every statement takes effect when it is executed: the class opens no transaction and
  never rolls back, so the table a call leaves behind is the table after its last
  statement.
\<close>

subsection \<open>Auxiliary facts\<close>

lemma strip_prefix_Some: "strip_prefix p s = Some r \<longleftrightarrow> s = p @ r"
  by (induction p s rule: strip_prefix.induct) auto

lemma str_contains_iff: "str_contains s sub \<longleftrightarrow> (\<exists>p q. s = p @ sub @ q)"
proof (induction s)
  case Nil
  then show ?case by auto
next
  case (Cons c cs)
  show ?case
  proof
    assume "str_contains (c # cs) sub"
    then consider "take (length sub) (c # cs) = sub" | "str_contains cs sub" by auto
    then show "\<exists>p q. c # cs = p @ sub @ q"
    proof cases
      case 1
      then have "c # cs = [] @ sub @ drop (length sub) (c # cs)"
        by (metis append_Nil append_take_drop_id)
      then show ?thesis by blast
    next
      case 2
      then obtain p q where "cs = p @ sub @ q" using Cons.IH by blast
      then have "c # cs = (c # p) @ sub @ q" by simp
      then show ?thesis by blast
    qed
  next
    assume "\<exists>p q. c # cs = p @ sub @ q"
    then obtain p q where pq: "c # cs = p @ sub @ q" by blast
    show "str_contains (c # cs) sub"
    proof (cases p)
      case Nil
      with pq have "take (length sub) (c # cs) = sub" by simp
      then show ?thesis by simp
    next
      case (Cons a p')
      with pq have "cs = p' @ sub @ q" by simp
      then show ?thesis using Cons.IH by auto
    qed
  qed
qed

lemma duplicate_entry_contains: "str_contains (str_of (duplicate_entry i)) ''Duplicate entry''"
proof -
  have "str_of (duplicate_entry i) = [] @ ''Duplicate entry'' @
      ('' '' @ [CHR 0x27] @ i @ [CHR 0x27] @ '' for key '' @ [CHR 0x27] @ ''PRIMARY'' @ [CHR 0x27])"
    by (simp add: duplicate_entry_def)
  then show ?thesis unfolding str_contains_iff by blast
qed

lemma write_loop_append:
  "write_loop env policy (xs @ ys) n cur =
     (case write_loop env policy xs n cur of
        (Inl e, c) \<Rightarrow> (Inl e, c)
      | (Inr m, c) \<Rightarrow> write_loop env policy ys m c)"
  by (induction env policy xs n cur rule: write_loop.induct)
     (auto split: prod.splits option.splits sum.splits)

lemma table_insert_present:
  assumes "dumps (metadata d) = Inr js" and "doc_id d \<in> set (map fst (store cur))"
  shows "try_insert (table_env dumps loads ev) d cur =
           (Some (duplicate_entry (doc_id d)),
            cur\<lparr>executed := executed cur @ [Insert (doc_id d) (content d) js]\<rparr>)"
  using assms by (simp add: try_insert_def cur_execute_def table_env_def)

lemma table_insert_fresh:
  assumes "dumps (metadata d) = Inr js" and "doc_id d \<notin> set (map fst (store cur))"
  shows "try_insert (table_env dumps loads ev) d cur =
           (None, \<lparr>store = store cur @ [(doc_id d, content d, js)],
                   executed = executed cur @ [Insert (doc_id d) (content d) js],
                   rowcount = 1, fetchall = []\<rparr>)"
  using assms by (simp add: try_insert_def cur_execute_def table_env_def)

lemma table_replace:
  assumes "dumps (metadata d) = Inr js"
  shows "try_replace (table_env dumps loads ev) d cur =
           (None, \<lparr>store = filter (\<lambda>r. fst r \<noteq> doc_id d) (store cur) @ [(doc_id d, content d, js)],
                   executed = executed cur @ [Replace (doc_id d) (content d) js],
                   rowcount = 1 + int (length (filter (\<lambda>r. fst r = doc_id d) (store cur))),
                   fetchall = []\<rparr>)"
  using assms by (simp add: try_replace_def cur_execute_def table_env_def)

lemma write_loop_fresh:
  assumes "\<forall>p \<in> set pre. dumps (metadata p) = Inr (enc p)"
    and "distinct (map doc_id pre)"
    and "set (map doc_id pre) \<inter> set (map fst (store cur)) = {}"
  shows "\<exists>cur1. write_loop (table_env dumps loads ev) policy pre n cur = (Inr (n + int (length pre)), cur1)
           \<and> store cur1 = store cur @ map (\<lambda>p. (doc_id p, content p, enc p)) pre
           \<and> executed cur1 = executed cur @ map (\<lambda>p. Insert (doc_id p) (content p) (enc p)) pre"
  using assms
proof (induction pre arbitrary: n cur)
  case Nil
  then show ?case by simp
next
  case (Cons p pre)
  let ?c = "\<lparr>store = store cur @ [(doc_id p, content p, enc p)],
                   executed = executed cur @ [Insert (doc_id p) (content p) (enc p)],
                   rowcount = 1, fetchall = []\<rparr>"
  have fresh: "doc_id p \<notin> set (map fst (store cur))" using Cons.prems(3) by auto
  have enc: "dumps (metadata p) = Inr (enc p)" using Cons.prems(1) by simp
  have step: "try_insert (table_env dumps loads ev) p cur = (None, ?c)"
    using enc fresh by (rule table_insert_fresh)
  have "\<exists>cur1. write_loop (table_env dumps loads ev) policy pre (n + 1) ?c = (Inr ((n + 1) + int (length pre)), cur1)
           \<and> store cur1 = store ?c @ map (\<lambda>p. (doc_id p, content p, enc p)) pre
           \<and> executed cur1 = executed ?c @ map (\<lambda>p. Insert (doc_id p) (content p) (enc p)) pre"
    using Cons.prems by (intro Cons.IH) auto
  then show ?case using step by auto
qed

lemma delete_loop_append:
  "delete_loop env (xs @ ys) cur =
     (case delete_loop env xs cur of
        (Some e, c) \<Rightarrow> (Some e, c)
      | (None, c) \<Rightarrow> delete_loop env ys c)"
  by (induction env xs cur rule: delete_loop.induct)
     (auto split: prod.splits option.splits)

lemma table_delete:
  "cur_execute (table_env dumps loads ev) (Delete i) cur =
     (None, \<lparr>store = filter (\<lambda>r. fst r \<noteq> i) (store cur),
             executed = executed cur @ [Delete i],
             rowcount = int (length (filter (\<lambda>r. fst r = i) (store cur))),
             fetchall = []\<rparr>)"
  by (simp add: cur_execute_def table_env_def)

lemma filter_key_empty: "filter (\<lambda>r. fst r = i) t = [] \<longleftrightarrow> i \<notin> set (map fst t)"
  by (auto simp: filter_empty_conv)

lemma delete_loop_present:
  assumes "distinct pre" and "set pre \<subseteq> set (map fst (store cur))"
  shows "\<exists>cur1. delete_loop (table_env dumps loads ev) pre cur = (None, cur1)
           \<and> store cur1 = filter (\<lambda>r. fst r \<notin> set pre) (store cur)
           \<and> executed cur1 = executed cur @ map Delete pre"
  using assms
proof (induction pre arbitrary: cur)
  case Nil
  then show ?case by simp
next
  case (Cons i pre)
  let ?c = "\<lparr>store = filter (\<lambda>r. fst r \<noteq> i) (store cur),
             executed = executed cur @ [Delete i],
             rowcount = int (length (filter (\<lambda>r. fst r = i) (store cur))),
             fetchall = []\<rparr>"
  have "i \<in> set (map fst (store cur))" using Cons.prems(2) by simp
  then have rc: "rowcount ?c \<noteq> 0" using filter_key_empty [of i "store cur"] by simp
  have sub: "set pre \<subseteq> set (map fst (store ?c))"
  proof
    fix x assume x: "x \<in> set pre"
    then have "x \<noteq> i" using Cons.prems(1) by auto
    moreover obtain r where "r \<in> set (store cur)" and "fst r = x"
      using x Cons.prems(2) by auto
    ultimately show "x \<in> set (map fst (store ?c))" by force
  qed
  have "distinct pre" using Cons.prems(1) by simp
  then obtain cur1 where
    loop: "delete_loop (table_env dumps loads ev) pre ?c = (None, cur1)"
    and st: "store cur1 = filter (\<lambda>r. fst r \<notin> set pre) (store ?c)"
    and ex: "executed cur1 = executed ?c @ map Delete pre"
    using Cons.IH [of ?c] sub by blast
  have "delete_loop (table_env dumps loads ev) (i # pre) cur = (None, cur1)"
    using rc loop by (simp add: table_delete)
  moreover have "store cur1 = filter (\<lambda>r. fst r \<notin> set (i # pre)) (store cur)"
    using st by (auto intro: filter_cong)
  moreover have "executed cur1 = executed cur @ map Delete (i # pre)"
    using ex by simp
  ultimately show ?case by blast
qed

lemma where_clauses_built:
  assumes "\<forall>(k, v) \<in> set items. json_dumps env v = Inr (enc v)"
  shows "where_clauses env a items =
           Inr (map (\<lambda>(k, v). clause_sql a k) items, map (\<lambda>(k, v). enc v) items)"
  using assms by (induction items) auto

lemma join_strs_Cons:
  assumes "xs \<noteq> []"
  shows "join_strs sep (x # xs) = x @ sep @ join_strs sep xs"
  using assms by (cases xs) simp_all

lemma quote_not_plain: "\<not> plain_char (CHR 0x27)"
  by (simp add: plain_char_def)

lemma takeWhile_plain_key:
  assumes "list_all plain_char k"
  shows "takeWhile plain_char (k @ clause_close @ rest) = k"
    and "dropWhile plain_char (k @ clause_close @ rest) = clause_close @ rest"
proof -
  have all: "\<forall>c \<in> set k. plain_char c" using assms by (simp add: list_all_iff)
  have stop: "\<not> plain_char (hd (clause_close @ rest))" "clause_close @ rest \<noteq> []"
    using quote_not_plain by (simp_all add: clause_close_def)
  obtain y ys where ys: "clause_close @ rest = y # ys" and y: "\<not> plain_char y"
    using stop by (cases "clause_close @ rest") auto
  show "takeWhile plain_char (k @ clause_close @ rest) = k"
    unfolding ys using all y by (simp add: takeWhile_append2)
  show "dropWhile plain_char (k @ clause_close @ rest) = clause_close @ rest"
    unfolding ys using all y by (simp add: dropWhile_append2)
qed

lemma strip_prefix_append: "strip_prefix p (p @ r) = Some r"
  by (simp add: strip_prefix_Some)

lemma read_clauses_step:
  assumes "plain_key k"
  shows "read_clauses start (start @ k @ clause_close @ rest) =
           (if rest = [] then Some [k]
            else (case strip_prefix '' AND '' rest of
                    None \<Rightarrow> None
                  | Some r \<Rightarrow> map_option (\<lambda>ns. k # ns) (read_clauses start r)))"
proof -
  have k: "k \<noteq> []" and all: "list_all plain_char k" using assms by (simp_all add: plain_key_def)
  show ?thesis
    by (subst read_clauses.simps)
       (simp only: strip_prefix_append takeWhile_plain_key [OF all] option.case k if_False)
qed

lemma read_clauses_join:
  assumes "ks \<noteq> []" and "\<forall>k \<in> set ks. plain_key k"
  shows "read_clauses start (join_strs '' AND '' (map (\<lambda>k. start @ k @ clause_close) ks)) =
           Some ks"
  using assms
proof (induction ks rule: list_nonempty_induct)
  case (single k)
  then have "plain_key k" by simp
  then show ?case using read_clauses_step [of k start "[]"] by simp
next
  case (cons k ks)
  let ?rest = "join_strs '' AND '' (map (\<lambda>k. start @ k @ clause_close) ks)"
  have pk: "plain_key k" using cons.prems by simp
  have ne: "map (\<lambda>k. start @ k @ clause_close) ks \<noteq> []" using cons.hyps by simp
  have joined: "join_strs '' AND '' (map (\<lambda>k. start @ k @ clause_close) (k # ks)) =
      start @ k @ clause_close @ ('' AND '' @ ?rest)"
    using join_strs_Cons [OF ne] by simp
  have IH: "read_clauses start ?rest = Some ks" using cons by simp
  have nonempty: "'' AND '' @ ?rest \<noteq> []" by simp
  show ?case
    unfolding joined read_clauses_step [OF pk]
    using nonempty by (simp only: if_False strip_prefix_append option.case IH option.map)
qed

lemma read_select_head: "read_select srv (select_text srv) = Some []"
proof -
  have "strip_prefix (select_text srv) (select_text srv) = Some []"
    by (simp add: strip_prefix_Some)
  then show ?thesis by (simp add: read_select_def)
qed

lemma read_select_where:
  assumes "ks \<noteq> []" and "\<forall>k \<in> set ks. plain_key k"
  shows "read_select srv (select_text srv @ '' WHERE '' @
           join_strs '' AND '' (map (\<lambda>k. clause_opening srv @ k @ clause_close) ks)) = Some ks"
proof -
  define cl where
    "cl = join_strs '' AND '' (map (\<lambda>k. clause_opening srv @ k @ clause_close) ks)"
  have rd: "read_clauses (clause_opening srv) cl = Some ks"
    unfolding cl_def using assms by (rule read_clauses_join)
  have sp: "strip_prefix (select_text srv) (select_text srv @ '' WHERE '' @ cl) =
      Some ('' WHERE '' @ cl)"
    by (rule strip_prefix_append)
  have sp': "strip_prefix '' WHERE '' ('' WHERE '' @ cl) = Some cl"
    by (rule strip_prefix_append)
  have ne: "'' WHERE '' @ cl \<noteq> []" by simp
  show ?thesis
    unfolding cl_def [symmetric] read_select_def sp
    using ne by (simp only: option.case if_False sp' rd)
qed

lemma row_matches_items:
  "row_matches srv (zip (map fst items) (map (\<lambda>(k, v). enc v) items)) r \<longleftrightarrow>
     (\<forall>(k, v) \<in> set items. member_is srv (snd (snd r)) k (enc v))"
  by (induction items) (auto simp: row_matches_def)

lemma decode_rows_decoded:
  assumes "\<forall>r \<in> set rs. json_loads env (snd (snd r)) = Inr (dec (snd (snd r)))"
  shows "decode_rows env rs =
           Inr (map (\<lambda>(i, c, m). \<lparr>doc_id = i, content = c, metadata = dec m\<rparr>) rs)"
  using assms by (induction rs) auto

lemma filter_documents_query:
  assumes conn: "pool_connect env (connection_kwargs a) db = None"
    and ex: "execute env (Select q ps) db = (Inr (n, rs), db')"
    and rows: "decode_rows env rs = Inr docs"
    and query: "(case filters of
                   None \<Rightarrow> Inr (select_sql a, [])
                 | Some items \<Rightarrow>
                     if items = [] then Inr (select_sql a, [])
                     else (case where_clauses env a items of
                             Inl e \<Rightarrow> Inl e
                           | Inr (cs, ps) \<Rightarrow>
                               Inr (if cs = [] then select_sql a
                                    else select_sql a @ '' WHERE '' @ join_strs '' AND '' cs,
                                    ps))) = Inr (q, ps)"
  shows "filter_documents env a filters db =
           (Inr docs, \<lparr>store = db', executed = [Select q ps], rowcount = n, fetchall = rs\<rparr>)"
  unfolding filter_documents_def conn query
  using ex rows by (simp add: cur_execute_def new_cursor_def)

lemma filter_documents_table:
  assumes dec: "\<forall>r \<in> set t. loads (snd (snd r)) = Inr (dec (snd (snd r)))"
    and enc: "\<forall>(k, v) \<in> set items. dumps v = Inr (enc v)"
    and plain: "\<forall>(k, v) \<in> set items. plain_key k"
    and fs: "filters = None \<and> items = [] \<or> filters = Some items"
  shows "fst (filter_documents (table_env dumps loads (adapter_server a loads dumps other))
                a filters t) =
           Inr (map (\<lambda>(i, c, m). \<lparr>doc_id = i, content = c, metadata = dec m\<rparr>)
                  (filter (\<lambda>r. \<forall>(k, v) \<in> set items.
                             member_text dumps (dec (snd (snd r))) k = Some (enc v)) t))"
proof -
  define srv where "srv = adapter_server a loads dumps other"
  define env :: "(json, table) env" where "env = table_env dumps loads srv"
  define ks where "ks = map fst items"
  define ps where "ps = map (\<lambda>(k, v). enc v) items"
  define q where "q = (if items = [] then select_sql a
      else select_sql a @ '' WHERE '' @ join_strs '' AND '' (map (\<lambda>(k, v). clause_sql a k) items))"
  define sel where "sel = filter (\<lambda>r. \<forall>(k, v) \<in> set items.
      member_text dumps (dec (snd (snd r))) k = Some (enc v)) t"
  have heads: "select_text srv = select_sql a" "clause_opening srv = clause_open a"
    "member_is srv = json_member_is loads dumps"
    by (simp_all add: srv_def adapter_server_def)
  have "\<forall>(k, v) \<in> set items. json_dumps env v = Inr (enc v)"
    using enc by (simp add: env_def table_env_def)
  then have wc: "where_clauses env a items = Inr (map (\<lambda>(k, v). clause_sql a k) items, ps)"
    unfolding ps_def by (rule where_clauses_built)
  have query: "(case filters of
                   None \<Rightarrow> Inr (select_sql a, [])
                 | Some items \<Rightarrow>
                     if items = [] then Inr (select_sql a, [])
                     else (case where_clauses env a items of
                             Inl e \<Rightarrow> Inl e
                           | Inr (cs, ps) \<Rightarrow>
                               Inr (if cs = [] then select_sql a
                                    else select_sql a @ '' WHERE '' @ join_strs '' AND '' cs,
                                    ps))) = Inr (q, ps)"
    using fs wc by (auto simp: q_def ps_def)
  have clauses: "map (\<lambda>(k, v). clause_sql a k) items =
      map (\<lambda>k. clause_opening srv @ k @ clause_close) ks"
    by (simp add: ks_def clause_sql_def heads case_prod_beta)
  have names: "read_select srv q = Some ks"
  proof (cases "items = []")
    case True
    then show ?thesis using read_select_head [of srv] by (simp add: q_def ks_def heads)
  next
    case False
    then have "ks \<noteq> []" by (simp add: ks_def)
    moreover have "\<forall>k \<in> set ks. plain_key k" using plain by (auto simp: ks_def)
    ultimately show ?thesis
      using read_select_where [of ks srv] False by (simp add: q_def clauses heads)
  qed
  have matches: "row_matches srv (zip ks ps) r \<longleftrightarrow>
      (\<forall>(k, v) \<in> set items. member_text dumps (dec (snd (snd r))) k = Some (enc v))"
    if "r \<in> set t" for r
  proof -
    have "loads (snd (snd r)) = Inr (dec (snd (snd r)))" using dec that by simp
    then show ?thesis
      unfolding ks_def ps_def row_matches_items heads by (simp add: json_member_is_def)
  qed
  have selected: "filter (row_matches srv (zip ks ps)) t = sel"
    unfolding sel_def by (rule filter_cong [OF refl]) (rule matches)
  have len: "length ks = length ps" by (simp add: ks_def ps_def)
  have ex: "execute env (Select q ps) t = (Inr (int (length sel), sel), t)"
    by (simp add: env_def table_env_def select_rows_def names len selected)
  have "\<forall>r \<in> set sel. json_loads env (snd (snd r)) = Inr (dec (snd (snd r)))"
    using dec by (simp add: env_def table_env_def sel_def)
  then have rows: "decode_rows env sel =
      Inr (map (\<lambda>(i, c, m). \<lparr>doc_id = i, content = c, metadata = dec m\<rparr>) sel)"
    by (rule decode_rows_decoded)
  have conn: "pool_connect env (connection_kwargs a) t = None"
    by (simp add: env_def table_env_def)
  show ?thesis
    using filter_documents_query [OF conn ex rows query]
    by (simp add: env_def srv_def sel_def)
qed

lemma example_rows:
  "row_of doc1 = (''1'', ''A'', flat_text (JObj [(''k'', JStr ''x'')]))"
  "row_of doc2 = (''2'', ''B'', flat_text (JObj [(''k'', JStr ''y'')]))"
  "row_of doc3 = (''3'', ''C'', flat_text (JObj [(''k'', JStr ''x''), (''lang'', JStr ''en'')]))"
  "row_of doc4 = (''4'', ''D'', flat_text (JObj [(quote_key, JStr ''x'')]))"
  by (simp_all add: row_of_def doc1_def doc2_def doc3_def doc4_def)

lemma example_loads:
  "flat_loads known_meta (flat_text (JObj [(''k'', JStr ''x'')])) = Inr (JObj [(''k'', JStr ''x'')])"
  "flat_loads known_meta (flat_text (JObj [(''k'', JStr ''y'')])) = Inr (JObj [(''k'', JStr ''y'')])"
  "flat_loads known_meta (flat_text (JObj [(''k'', JStr ''x''), (''lang'', JStr ''en'')])) =
     Inr (JObj [(''k'', JStr ''x''), (''lang'', JStr ''en'')])"
  "flat_loads known_meta (flat_text (JObj [(quote_key, JStr ''x'')])) =
     Inr (JObj [(quote_key, JStr ''x'')])"
  by (simp_all add: flat_loads_def known_meta_def quoted_def quote_key_def)

lemma parse_uri_dom:
  assumes "parse_uri urlparse u kw = Inr ck"
  shows "dom ck \<subseteq> dom kw \<union> {''host'', ''port'', ''user'', ''password'', ''database''}"
  using assms by (auto simp: parse_uri_def Let_def split: sum.splits if_splits)

lemma init_kwargs:
  assumes "init urlparse queue_pool env args db = (Inr a, db')"
  shows "dom (connection_kwargs a) \<inter> param_names = {}"
proof -
  define kw where "kw = args |` (- param_names)"
  define uri where "uri = arg args ''uri'' PNone"
  define res where "res = (if truthy uri then parse_uri urlparse uri kw else Inr kw)"
  have restr: "dom kw \<inter> param_names = {}" by (auto simp: kw_def)
  define S where "S = {''host'', ''port'', ''user'', ''password'', ''database''}"
  have names: "S \<inter> param_names = {}"
    by (simp add: S_def param_names_def)
  show ?thesis
  proof (cases res)
    case (Inl e)
    then have "init urlparse queue_pool env args db = (Inl e, db)"
      unfolding init_def Let_def kw_def [symmetric] uri_def [symmetric] res_def [symmetric]
      by simp
    with assms show ?thesis by simp
  next
    case (Inr ck)
    have "fst (init urlparse queue_pool env args db) = Inr a" using assms by simp
    then have "connection_kwargs a = ck"
      unfolding init_def Let_def kw_def [symmetric] uri_def [symmetric] res_def [symmetric] Inr
      by (simp split: option.splits prod.splits) auto
    moreover have "dom ck \<inter> param_names = {}"
    proof (cases "truthy uri")
      case True
      then have "parse_uri urlparse uri kw = Inr ck" using Inr by (simp add: res_def)
      then have "dom ck \<subseteq> dom kw \<union> S" unfolding S_def by (rule parse_uri_dom)
      then show ?thesis using restr names by blast
    next
      case False
      then have "ck = kw" using Inr by (simp add: res_def)
      then show ?thesis using restr by simp
    qed
    ultimately show ?thesis by simp
  qed
qed

lemma to_dict_pop_type:
  assumes wf: "dom (connection_kwargs a) \<inter> param_names = {}"
    and nt: "''type'' \<notin> dom (connection_kwargs a)"
  shows "((to_dict a)(''type'' := None)) |` (- param_names) = connection_kwargs a"
proof
  fix k
  show "(((to_dict a)(''type'' := None)) |` (- param_names)) k = connection_kwargs a k"
  proof (cases "connection_kwargs a k")
    case None
    then show ?thesis
      by (auto simp: to_dict_def restrict_map_def map_add_def param_names_def)
  next
    case (Some v)
    then have "k \<notin> param_names" and "k \<noteq> ''type''" using wf nt by auto
    then show ?thesis using Some
      by (simp add: to_dict_def restrict_map_def map_add_def)
  qed
qed

lemma to_dict_fixed:
  assumes wf: "dom (connection_kwargs a) \<inter> param_names = {}"
    and nt: "''type'' \<notin> dom (connection_kwargs a)"
  shows "to_dict a ''type'' = Some (PStr ''SingleStoreDocumentStore'')"
    and "to_dict a ''table_name'' = Some (table_name a)"
    and "to_dict a ''content_field'' = Some (content_field a)"
    and "to_dict a ''metadata_field'' = Some (metadata_field a)"
    and "to_dict a ''id_field'' = Some (id_field a)"
    and "to_dict a ''pool_size'' = Some (pool_size a)"
    and "to_dict a ''max_overflow'' = Some (max_overflow a)"
    and "to_dict a ''timeout'' = Some (timeout a)"
    and "to_dict a ''uri'' = None"
proof -
  have none: "connection_kwargs a k = None" if "k \<in> param_names \<or> k = ''type''" for k
    using that wf nt by auto
  show "to_dict a ''type'' = Some (PStr ''SingleStoreDocumentStore'')"
    by (simp add: to_dict_def map_add_def none)
  show "to_dict a ''table_name'' = Some (table_name a)"
    by (simp add: to_dict_def map_add_def none param_names_def)
  show "to_dict a ''content_field'' = Some (content_field a)"
    by (simp add: to_dict_def map_add_def none param_names_def)
  show "to_dict a ''metadata_field'' = Some (metadata_field a)"
    by (simp add: to_dict_def map_add_def none param_names_def)
  show "to_dict a ''id_field'' = Some (id_field a)"
    by (simp add: to_dict_def map_add_def none param_names_def)
  show "to_dict a ''pool_size'' = Some (pool_size a)"
    by (simp add: to_dict_def map_add_def none param_names_def)
  show "to_dict a ''max_overflow'' = Some (max_overflow a)"
    by (simp add: to_dict_def map_add_def none param_names_def)
  show "to_dict a ''timeout'' = Some (timeout a)"
    by (simp add: to_dict_def map_add_def none param_names_def)
  show "to_dict a ''uri'' = None"
    by (simp add: to_dict_def map_add_def none param_names_def)
qed

lemma example_prefix:
  "write_loop (table_env flat_dumps (flat_loads known_meta) example_server) policy
      [doc2] 0 (new_cursor [row_of doc1]) =
     (Inr 1, \<lparr>store = [row_of doc1, row_of doc2],
               executed = [Insert ''2'' ''B'' (flat_text (JObj [(''k'', JStr ''y'')]))],
               rowcount = 1, fetchall = []\<rparr>)"
  by (simp add: try_insert_def cur_execute_def table_env_def new_cursor_def flat_dumps_def
      row_of_def doc1_def doc2_def)

subsection \<open>write_documents under FAIL\<close>

text \<open>
  Claim C1. On the reference table, under policy FAIL: let the documents \<open>pre\<close> before
  \<open>d\<close> have pairwise different ids that are not in the table \<open>t\<close>, all with metadata
  that \<^verbatim>\<open>json.dumps\<close> encodes, and let the id of \<open>d\<close> be in the table or among those earlier
  ids, so that \<open>d\<close> is the first document whose INSERT meets its key. Then the call raises
  \<^verbatim>\<open>DuplicateDocumentError\<close> with the message
  \<^verbatim>\<open>Document with id <id of d> already exists.\<close>; the table it leaves is \<open>t\<close> followed by the
  rows of \<open>pre\<close>, which is the table as it stood when \<open>d\<close> was tried: the row that holds
  the id of \<open>d\<close> keeps its content and metadata, and no earlier insert is undone; and the
  statements sent are the INSERTs for \<open>pre\<close> and for \<open>d\<close>, none for the documents \<open>post\<close>
  after it.
\<close>

theorem write_documents_fail_duplicate:
  assumes enc: "\<forall>p \<in> set pre. dumps (metadata p) = Inr (enc p)"
    and encd: "dumps (metadata d) = Inr (enc d)"
    and dist: "distinct (map doc_id pre)"
    and fresh: "set (map doc_id pre) \<inter> set (map fst t) = {}"
    and dup: "doc_id d \<in> set (map fst t) \<union> set (map doc_id pre)"
  shows "fst (write_documents (table_env dumps loads ev) a (pre @ d # post) FAIL t) =
           Inl (DuplicateDocumentError (''Document with id '' @ doc_id d @ '' already exists.''))
       \<and> store (snd (write_documents (table_env dumps loads ev) a (pre @ d # post) FAIL t)) =
           t @ map (\<lambda>p. (doc_id p, content p, enc p)) pre
       \<and> executed (snd (write_documents (table_env dumps loads ev) a (pre @ d # post) FAIL t)) =
           map (\<lambda>p. Insert (doc_id p) (content p) (enc p)) (pre @ [d])"
proof -
  let ?env = "table_env dumps loads ev"
  have "set (map doc_id pre) \<inter> set (map fst (store (new_cursor t))) = {}"
    using fresh by (simp add: new_cursor_def)
  with enc dist obtain cur1 where
    loop: "write_loop ?env FAIL pre 0 (new_cursor t) = (Inr (0 + int (length pre)), cur1)"
    and st: "store cur1 = store (new_cursor t) @ map (\<lambda>p. (doc_id p, content p, enc p)) pre"
    and ex: "executed cur1 = executed (new_cursor t) @ map (\<lambda>p. Insert (doc_id p) (content p) (enc p)) pre"
    using write_loop_fresh [of pre dumps enc "new_cursor t" loads ev FAIL 0] by blast
  have present: "doc_id d \<in> set (map fst (store cur1))"
    using dup st by (auto simp: new_cursor_def)
  have step: "try_insert ?env d cur1 =
      (Some (duplicate_entry (doc_id d)),
       cur1\<lparr>executed := executed cur1 @ [Insert (doc_id d) (content d) (enc d)]\<rparr>)"
    using encd present by (rule table_insert_present)
  have "write_loop ?env FAIL (d # post) (0 + int (length pre)) cur1 =
      (Inl (DuplicateDocumentError (''Document with id '' @ doc_id d @ '' already exists.'')),
       cur1\<lparr>executed := executed cur1 @ [Insert (doc_id d) (content d) (enc d)]\<rparr>)"
    using step duplicate_entry_contains [of "doc_id d"] by simp
  then have "write_documents ?env a (pre @ d # post) FAIL t =
      (Inl (DuplicateDocumentError (''Document with id '' @ doc_id d @ '' already exists.'')),
       cur1\<lparr>executed := executed cur1 @ [Insert (doc_id d) (content d) (enc d)]\<rparr>)"
    using loop by (simp add: write_documents_def write_loop_append table_env_def)
  then show ?thesis using st ex by (simp add: new_cursor_def)
qed

text \<open>
  Worked example: the table holds document 1; writing documents 2, a new version of 1, and 3
  under FAIL stores 2, fails on 1 and never sends 3.
\<close>

theorem write_documents_fail_duplicate_witness:
  "fst (write_documents example_env example_adapter [doc2, doc1', doc3] FAIL [row_of doc1]) =
     Inl (DuplicateDocumentError ''Document with id 1 already exists.'')
   \<and> store (snd (write_documents example_env example_adapter [doc2, doc1', doc3] FAIL [row_of doc1])) =
     [row_of doc1, row_of doc2]
   \<and> executed (snd (write_documents example_env example_adapter [doc2, doc1', doc3] FAIL [row_of doc1])) =
     [Insert ''2'' ''B'' (flat_text (JObj [(''k'', JStr ''y'')])), Insert ''1'' ''Z'' (flat_text (JObj [(''k'', JStr ''z'')]))]"
  using write_documents_fail_duplicate [where pre = "[doc2]" and dumps = flat_dumps
      and enc = "\<lambda>p. flat_text (metadata p)" and d = doc1' and t = "[row_of doc1]"
      and loads = "flat_loads known_meta" and ev = example_server
      and a = example_adapter and post = "[doc3]"]
  by (simp add: example_env_def flat_dumps_def row_of_def doc1_def doc2_def doc1'_def)

subsection \<open>write_documents under SKIP and OVERWRITE\<close>

text \<open>
  Claim C2. On the reference table, let the loop have processed the documents \<open>pre\<close> and
  reached the count \<open>n\<close> and the cursor \<open>cur1\<close>, and let the id of the next document \<open>d\<close>
  be a key of the table at that point. Under SKIP the call goes on with the remaining
  documents \<open>post\<close> from the same table and the same count \<open>n\<close> (only the failed INSERT
  is added to the statements sent). Under OVERWRITE it goes on from the count \<open>n + 1\<close>
  and from the table in which the row of that id is removed and the row made of the id,
  content and encoded metadata of \<open>d\<close> is stored; all other rows are as they were.
\<close>

theorem write_documents_skip_overwrite:
  assumes encd: "dumps (metadata d) = Inr js"
    and pre: "write_loop (table_env dumps loads ev) policy pre 0 (new_cursor t) = (Inr n, cur1)"
    and present: "doc_id d \<in> set (map fst (store cur1))"
  shows "(policy = SKIP \<longrightarrow>
            write_documents (table_env dumps loads ev) a (pre @ d # post) policy t =
              write_loop (table_env dumps loads ev) policy post n
                (cur1\<lparr>executed := executed cur1 @ [Insert (doc_id d) (content d) js]\<rparr>))
       \<and> (policy = OVERWRITE \<longrightarrow>
            write_documents (table_env dumps loads ev) a (pre @ d # post) policy t =
              write_loop (table_env dumps loads ev) policy post (n + 1)
                \<lparr>store = filter (\<lambda>r. fst r \<noteq> doc_id d) (store cur1) @ [(doc_id d, content d, js)],
                 executed = executed cur1 @ [Insert (doc_id d) (content d) js,
                                             Replace (doc_id d) (content d) js],
                 rowcount = 1 + int (length (filter (\<lambda>r. fst r = doc_id d) (store cur1))),
                 fetchall = []\<rparr>)"
proof -
  let ?env = "table_env dumps loads ev"
  let ?c = "cur1\<lparr>executed := executed cur1 @ [Insert (doc_id d) (content d) js]\<rparr>"
  have ins: "try_insert ?env d cur1 = (Some (duplicate_entry (doc_id d)), ?c)"
    using encd present by (rule table_insert_present)
  have rep: "try_replace ?env d ?c =
      (None, \<lparr>store = filter (\<lambda>r. fst r \<noteq> doc_id d) (store ?c) @ [(doc_id d, content d, js)],
              executed = executed ?c @ [Replace (doc_id d) (content d) js],
              rowcount = 1 + int (length (filter (\<lambda>r. fst r = doc_id d) (store ?c))),
              fetchall = []\<rparr>)"
    using encd by (rule table_replace)
  have call: "write_documents ?env a (pre @ d # post) policy t =
      write_loop ?env policy (d # post) n cur1"
    using pre by (simp add: write_documents_def write_loop_append table_env_def)
  have dupl: "str_contains (str_of (duplicate_entry (doc_id d))) ''Duplicate entry''"
    by (rule duplicate_entry_contains)
  show ?thesis
    unfolding call using ins rep dupl by simp
qed

text \<open>
  Worked example: the table holds document 1; documents 2, a new version of 1, and 3 are
  written. SKIP returns 2 and leaves row 1 as it was; OVERWRITE returns 3 and row 1 has the
  new content and metadata.
\<close>

theorem write_documents_skip_overwrite_witness:
  "fst (write_documents example_env example_adapter [doc2, doc1', doc3] SKIP [row_of doc1]) = Inr 2
   \<and> store (snd (write_documents example_env example_adapter [doc2, doc1', doc3] SKIP [row_of doc1])) =
       [row_of doc1, row_of doc2, row_of doc3]
   \<and> fst (write_documents example_env example_adapter [doc2, doc1', doc3] OVERWRITE [row_of doc1]) = Inr 3
   \<and> store (snd (write_documents example_env example_adapter [doc2, doc1', doc3] OVERWRITE [row_of doc1])) =
       [row_of doc2, row_of doc1', row_of doc3]"
proof -
  let ?c = "\<lparr>store = [row_of doc1, row_of doc2],
        executed = [Insert ''2'' ''B'' (flat_text (JObj [(''k'', JStr ''y'')]))],
        rowcount = 1, fetchall = []\<rparr>"
  have enc: "flat_dumps (metadata doc1') = Inr (flat_text (JObj [(''k'', JStr ''z'')]))"
    by (simp add: flat_dumps_def doc1'_def)
  have present: "doc_id doc1' \<in> set (map fst (store ?c))"
    by (simp add: row_of_def doc1_def doc1'_def)
  have skip: "write_documents example_env example_adapter [doc2, doc1', doc3] SKIP [row_of doc1] =
      write_loop example_env SKIP [doc3] 1
        (?c\<lparr>executed := executed ?c @ [Insert (doc_id doc1') (content doc1') (flat_text (JObj [(''k'', JStr ''z'')]))]\<rparr>)"
    using write_documents_skip_overwrite [OF enc example_prefix present, where a = example_adapter and post = "[doc3]"
          and policy = SKIP]
    by (simp add: example_env_def)
  have over: "write_documents example_env example_adapter [doc2, doc1', doc3] OVERWRITE [row_of doc1] =
      write_loop example_env OVERWRITE [doc3] 2
        \<lparr>store = filter (\<lambda>r. fst r \<noteq> doc_id doc1') (store ?c) @ [(doc_id doc1', content doc1', flat_text (JObj [(''k'', JStr ''z'')]))],
         executed = executed ?c @ [Insert (doc_id doc1') (content doc1') (flat_text (JObj [(''k'', JStr ''z'')])),
                                     Replace (doc_id doc1') (content doc1') (flat_text (JObj [(''k'', JStr ''z'')]))],
         rowcount = 1 + int (length (filter (\<lambda>r. fst r = doc_id doc1') (store ?c))),
         fetchall = []\<rparr>"
    using write_documents_skip_overwrite [OF enc example_prefix present, where a = example_adapter and post = "[doc3]"
          and policy = OVERWRITE]
    by (simp add: example_env_def)
  show ?thesis
    unfolding skip over
    by (simp add: example_env_def try_insert_def cur_execute_def table_env_def flat_dumps_def
        row_of_def doc1_def doc2_def doc3_def doc1'_def)
qed

subsection \<open>write_documents under any other policy\<close>

text \<open>
  Claim C10. In the situation of claim C2, under a policy that is none of FAIL, SKIP and
  OVERWRITE (the enumeration has one such member, NONE), no exception is raised for \<open>d\<close>:
  the call goes on with the remaining documents \<open>post\<close> from the same table and the same
  count \<open>n\<close>.
\<close>

theorem write_documents_other_policy:
  assumes encd: "dumps (metadata d) = Inr js"
    and pre: "write_loop (table_env dumps loads ev) policy pre 0 (new_cursor t) = (Inr n, cur1)"
    and present: "doc_id d \<in> set (map fst (store cur1))"
    and other: "policy \<noteq> FAIL" "policy \<noteq> SKIP" "policy \<noteq> OVERWRITE"
  shows "write_documents (table_env dumps loads ev) a (pre @ d # post) policy t =
           write_loop (table_env dumps loads ev) policy post n
             (cur1\<lparr>executed := executed cur1 @ [Insert (doc_id d) (content d) js]\<rparr>)"
proof -
  let ?env = "table_env dumps loads ev"
  let ?c = "cur1\<lparr>executed := executed cur1 @ [Insert (doc_id d) (content d) js]\<rparr>"
  have ins: "try_insert ?env d cur1 = (Some (duplicate_entry (doc_id d)), ?c)"
    using encd present by (rule table_insert_present)
  have call: "write_documents ?env a (pre @ d # post) policy t =
      write_loop ?env policy (d # post) n cur1"
    using pre by (simp add: write_documents_def write_loop_append table_env_def)
  show ?thesis
    using ins other duplicate_entry_contains [of "doc_id d"] by (simp add: call)
qed

text \<open>
  Worked example: as above under NONE; the call returns 2 and row 1 is as it was.
\<close>

theorem write_documents_other_policy_witness:
  "fst (write_documents example_env example_adapter [doc2, doc1', doc3] NONE [row_of doc1]) = Inr 2
   \<and> store (snd (write_documents example_env example_adapter [doc2, doc1', doc3] NONE [row_of doc1])) =
       [row_of doc1, row_of doc2, row_of doc3]"
proof -
  let ?c = "\<lparr>store = [row_of doc1, row_of doc2],
        executed = [Insert ''2'' ''B'' (flat_text (JObj [(''k'', JStr ''y'')]))],
        rowcount = 1, fetchall = []\<rparr>"
  have enc: "flat_dumps (metadata doc1') = Inr (flat_text (JObj [(''k'', JStr ''z'')]))"
    by (simp add: flat_dumps_def doc1'_def)
  have present: "doc_id doc1' \<in> set (map fst (store ?c))"
    by (simp add: row_of_def doc1_def doc1'_def)
  have none: "write_documents example_env example_adapter [doc2, doc1', doc3] NONE [row_of doc1] =
      write_loop example_env NONE [doc3] 1
        (?c\<lparr>executed := executed ?c @ [Insert (doc_id doc1') (content doc1') (flat_text (JObj [(''k'', JStr ''z'')]))]\<rparr>)"
    using write_documents_other_policy [OF enc example_prefix present, where a = example_adapter and post = "[doc3]"]
    by (simp add: example_env_def)
  show ?thesis
    unfolding none
    by (simp add: example_env_def try_insert_def cur_execute_def table_env_def flat_dumps_def
        row_of_def doc1_def doc2_def doc3_def doc1'_def)
qed

subsection \<open>write_documents on other errors\<close>

text \<open>
  Claim C8. For every connector, every policy and every document list
  \<open>pre @ d # post\<close>: let the loop have processed \<open>pre\<close> and reached the cursor \<open>cur1\<close>. If
  the connector raises \<open>e\<close> on the INSERT for \<open>d\<close> and the text of \<open>e\<close> does not contain
  \<^verbatim>\<open>Duplicate entry\<close>, the call raises that same \<open>e\<close>, and the last statement sent is that
  INSERT: nothing is sent for \<open>post\<close>. The same holds for any exception the connector
  raises on the REPLACE that OVERWRITE sends after a key conflict.
\<close>

theorem write_documents_error_propagates:
  assumes conn: "pool_connect env (connection_kwargs a) db = None"
    and pre: "write_loop env policy pre 0 (new_cursor db) = (Inr n, cur1)"
    and encd: "json_dumps env (metadata d) = Inr js"
  shows "(\<forall>e db'. execute env (Insert (doc_id d) (content d) js) (store cur1) = (Inl e, db')
            \<and> \<not> str_contains (str_of e) ''Duplicate entry'' \<longrightarrow>
            write_documents env a (pre @ d # post) policy db =
              (Inl e, cur1\<lparr>store := db',
                           executed := executed cur1 @ [Insert (doc_id d) (content d) js]\<rparr>))
       \<and> (\<forall>e1 db1 e db'. policy = OVERWRITE
            \<and> execute env (Insert (doc_id d) (content d) js) (store cur1) = (Inl e1, db1)
            \<and> str_contains (str_of e1) ''Duplicate entry''
            \<and> execute env (Replace (doc_id d) (content d) js) db1 = (Inl e, db') \<longrightarrow>
            write_documents env a (pre @ d # post) policy db =
              (Inl e, cur1\<lparr>store := db',
                           executed := executed cur1 @ [Insert (doc_id d) (content d) js,
                                                       Replace (doc_id d) (content d) js]\<rparr>))"
proof -
  have call: "write_documents env a (pre @ d # post) policy db =
      write_loop env policy (d # post) n cur1"
    using conn pre by (simp add: write_documents_def write_loop_append)
  show ?thesis
    unfolding call using encd by (auto simp: try_insert_def try_replace_def cur_execute_def)
qed

text \<open>
  Worked example, on a table that is full at two rows: the table holds document 1. Under
  FAIL, document 2 is stored and the INSERT of document 3 raises \<^verbatim>\<open>table is full\<close>, which
  the call raises; the last document is never sent. Under OVERWRITE, the REPLACE for the
  new version of document 1 raises it.
\<close>

theorem write_documents_error_propagates_witness:
  "write_documents (full_env 2) example_adapter [doc2, doc3, doc1'] FAIL [row_of doc1] =
     (Inl table_full,
      \<lparr>store = [row_of doc1, row_of doc2],
       executed = [Insert ''2'' ''B'' (flat_text (JObj [(''k'', JStr ''y'')])),
                   Insert ''3'' ''C'' (flat_text (JObj [(''k'', JStr ''x''), (''lang'', JStr ''en'')]))],
       rowcount = 1, fetchall = []\<rparr>)
   \<and> write_documents (full_env 2) example_adapter [doc2, doc1', doc3] OVERWRITE [row_of doc1] =
     (Inl table_full,
      \<lparr>store = [row_of doc1, row_of doc2],
       executed = [Insert ''2'' ''B'' (flat_text (JObj [(''k'', JStr ''y'')])),
                   Insert ''1'' ''Z'' (flat_text (JObj [(''k'', JStr ''z'')])),
                   Replace ''1'' ''Z'' (flat_text (JObj [(''k'', JStr ''z'')]))],
       rowcount = 1, fetchall = []\<rparr>)"
proof -
  let ?c = "\<lparr>store = [row_of doc1, row_of doc2],
        executed = [Insert ''2'' ''B'' (flat_text (JObj [(''k'', JStr ''y'')]))],
        rowcount = 1, fetchall = []\<rparr>"
  have conn: "pool_connect (full_env 2) (connection_kwargs example_adapter) [row_of doc1] = None"
    by (simp add: full_env_def)
  have pre: "write_loop (full_env 2) policy [doc2] 0 (new_cursor [row_of doc1]) = (Inr 1, ?c)"
    for policy
    by (simp add: try_insert_def cur_execute_def full_env_def new_cursor_def flat_dumps_def
        row_of_def doc1_def doc2_def)
  have enc3: "json_dumps (full_env 2) (metadata doc3) =
      Inr (flat_text (JObj [(''k'', JStr ''x''), (''lang'', JStr ''en'')]))"
    by (simp add: full_env_def flat_dumps_def doc3_def)
  have enc1: "json_dumps (full_env 2) (metadata doc1') = Inr (flat_text (JObj [(''k'', JStr ''z'')]))"
    by (simp add: full_env_def flat_dumps_def doc1'_def)
  have not_dup: "\<not> str_contains (str_of table_full) ''Duplicate entry''"
    by (simp add: table_full_def)
  have dupl: "str_contains (str_of (duplicate_entry ''1'')) ''Duplicate entry''"
    by (rule duplicate_entry_contains)
  have ins3: "execute (full_env 2) (Insert (doc_id doc3) (content doc3)
        (flat_text (JObj [(''k'', JStr ''x''), (''lang'', JStr ''en'')]))) (store ?c) =
      (Inl table_full, [row_of doc1, row_of doc2])"
    by (simp add: full_env_def row_of_def doc1_def doc2_def doc3_def)
  have ins1: "execute (full_env 2) (Insert (doc_id doc1') (content doc1')
        (flat_text (JObj [(''k'', JStr ''z'')]))) (store ?c) =
      (Inl (duplicate_entry ''1''), [row_of doc1, row_of doc2])"
    by (simp add: full_env_def row_of_def doc1_def doc2_def doc1'_def)
  have rep1: "execute (full_env 2) (Replace (doc_id doc1') (content doc1')
        (flat_text (JObj [(''k'', JStr ''z'')]))) [row_of doc1, row_of doc2] =
      (Inl table_full, [row_of doc1, row_of doc2])"
    by (simp add: full_env_def)
  have first: "write_documents (full_env 2) example_adapter ([doc2] @ doc3 # [doc1']) FAIL
        [row_of doc1] =
      (Inl table_full, ?c\<lparr>store := [row_of doc1, row_of doc2],
         executed := executed ?c @ [Insert (doc_id doc3) (content doc3)
            (flat_text (JObj [(''k'', JStr ''x''), (''lang'', JStr ''en'')]))]\<rparr>)"
    using write_documents_error_propagates [OF conn pre enc3, where post = "[doc1']"]
      ins3 not_dup by blast
  have second: "write_documents (full_env 2) example_adapter ([doc2] @ doc1' # [doc3]) OVERWRITE
        [row_of doc1] =
      (Inl table_full, ?c\<lparr>store := [row_of doc1, row_of doc2],
         executed := executed ?c @ [Insert (doc_id doc1') (content doc1')
            (flat_text (JObj [(''k'', JStr ''z'')])), Replace (doc_id doc1') (content doc1')
            (flat_text (JObj [(''k'', JStr ''z'')]))]\<rparr>)"
    using write_documents_error_propagates [OF conn pre enc1, where post = "[doc3]"
        and policy = OVERWRITE] ins1 rep1 dupl by blast
  show ?thesis using first second by (simp add: doc3_def doc1'_def)
qed

subsection \<open>delete_documents\<close>

text \<open>
  Claim C3. On the reference table: let the ids \<open>pre\<close> be pairwise different keys of the
  table \<open>t\<close>, and let \<open>x\<close> be no key of \<open>t\<close>, or one of \<open>pre\<close> (deleted by then), so that
  \<open>x\<close> is the first id whose DELETE matches no row. Then the call on \<open>pre @ x # post\<close>
  raises \<^verbatim>\<open>MissingDocumentError\<close> with the message \<^verbatim>\<open>Document with id '<x>' not found.\<close>;
  the table it leaves is \<open>t\<close> without the rows of \<open>pre\<close>, so these deletions stay and the
  rows of the ids in \<open>post\<close> are still there; and the statements sent are the DELETEs for
  \<open>pre\<close> and for \<open>x\<close>, in that order, none for \<open>post\<close>.
\<close>

theorem delete_documents_missing:
  assumes dist: "distinct pre"
    and sub: "set pre \<subseteq> set (map fst t)"
    and missing: "x \<notin> set (map fst t) \<or> x \<in> set pre"
  shows "fst (delete_documents (table_env dumps loads ev) a (pre @ x # post) t) =
           Some (MissingDocumentError
                   (''Document with id '' @ [CHR 0x27] @ x @ [CHR 0x27] @ '' not found.''))
       \<and> store (snd (delete_documents (table_env dumps loads ev) a (pre @ x # post) t)) =
           filter (\<lambda>r. fst r \<notin> set pre) t
       \<and> executed (snd (delete_documents (table_env dumps loads ev) a (pre @ x # post) t)) =
           map Delete (pre @ [x])"
proof -
  let ?env = "table_env dumps loads ev"
  have "set pre \<subseteq> set (map fst (store (new_cursor t)))"
    using sub by (simp add: new_cursor_def)
  with dist obtain cur1 where
    loop: "delete_loop ?env pre (new_cursor t) = (None, cur1)"
    and st: "store cur1 = filter (\<lambda>r. fst r \<notin> set pre) (store (new_cursor t))"
    and ex: "executed cur1 = executed (new_cursor t) @ map Delete pre"
    using delete_loop_present [of pre "new_cursor t" dumps loads ev] by blast
  have gone: "x \<notin> set (map fst (store cur1))"
    using missing st by (auto simp: new_cursor_def)
  then have none: "filter (\<lambda>r. fst r = x) (store cur1) = []"
    using filter_key_empty [of x "store cur1"] by simp
  have same: "filter (\<lambda>r. fst r \<noteq> x) (store cur1) = store cur1"
    using gone by (auto simp: filter_id_conv)
  have "delete_loop ?env (x # post) cur1 =
      (Some (MissingDocumentError (missing_message x)),
       \<lparr>store = store cur1, executed = executed cur1 @ [Delete x], rowcount = 0, fetchall = []\<rparr>)"
    by (simp add: table_delete none same)
  then have "delete_documents ?env a (pre @ x # post) t =
      (Some (MissingDocumentError (missing_message x)),
       \<lparr>store = store cur1, executed = executed cur1 @ [Delete x], rowcount = 0, fetchall = []\<rparr>)"
    using loop by (simp add: delete_documents_def delete_loop_append table_env_def)
  then show ?thesis using st ex by (simp add: new_cursor_def missing_message_def)
qed

text \<open>
  Worked example: the table holds documents 1, 2 and 3; deleting the ids 2, 9, 1 removes
  row 2, fails on 9 and leaves row 1.
\<close>

theorem delete_documents_missing_witness:
  "fst (delete_documents example_env example_adapter [''2'', ''9'', ''1'']
          [row_of doc1, row_of doc2, row_of doc3]) =
     Some (MissingDocumentError
             (''Document with id '' @ [CHR 0x27] @ ''9'' @ [CHR 0x27] @ '' not found.''))
   \<and> store (snd (delete_documents example_env example_adapter [''2'', ''9'', ''1'']
          [row_of doc1, row_of doc2, row_of doc3])) = [row_of doc1, row_of doc3]
   \<and> executed (snd (delete_documents example_env example_adapter [''2'', ''9'', ''1'']
          [row_of doc1, row_of doc2, row_of doc3])) = [Delete ''2'', Delete ''9'']"
  using delete_documents_missing [where pre = "[''2'']" and x = "''9''" and post = "[''1'']"
      and t = "[row_of doc1, row_of doc2, row_of doc3]" and dumps = flat_dumps
      and loads = "flat_loads known_meta" and ev = example_server and a = example_adapter]
  by (simp add: example_env_def row_of_def doc1_def doc2_def doc3_def)

subsection \<open>filter_documents\<close>

text \<open>
  Claim C4 at a filter key with a quote in it. The table holds a document whose metadata
  is \<^verbatim>\<open>{"a'b": "x"}\<close>, so it has the top-level key \<^verbatim>\<open>a'b\<close> equal to the filter value and the
  claim wants it returned for the filter \<^verbatim>\<open>{"a'b": "x"}\<close>. The class writes the key into
  the SQL text as it is: the string literal of the path ends at the quote of the key, what
  the server receives is no equality clause on that key, and the call ends with the
  server's error. The value, in contrast, travels as a bound parameter.
\<close>

theorem filter_documents_quote_key:
  "fst (filter_documents example_env example_adapter (Some [(quote_key, JStr ''x'')])
          [row_of doc1, row_of doc4]) = Inl syntax_error
   \<and> executed (snd (filter_documents example_env example_adapter
          (Some [(quote_key, JStr ''x'')]) [row_of doc1, row_of doc4])) =
       [Select (''SELECT id, content, metadata FROM test_documents WHERE JSON_EXTRACT(metadata, ''
                 @ [CHR 0x27] @ ''$.a'' @ [CHR 0x27] @ ''b'' @ [CHR 0x27] @ '') = %s'')
          [[CHR 0x22] @ ''x'' @ [CHR 0x22]]]
   \<and> json_member_is (flat_loads known_meta) flat_dumps (snd (snd (row_of doc4))) quote_key
         (flat_text (JStr ''x''))"
proof -
  define q where "q = ''SELECT id, content, metadata FROM test_documents WHERE JSON_EXTRACT(metadata, ''
                 @ [CHR 0x27] @ ''$.a'' @ [CHR 0x27] @ ''b'' @ [CHR 0x27] @ '') = %s''"
  define ps where "ps = [[CHR 0x22] @ ''x'' @ [CHR 0x22]]"
  have heads: "select_text example_server = ''SELECT id, content, metadata FROM test_documents''"
    "clause_opening example_server = ''JSON_EXTRACT(metadata, '' @ [CHR 0x27] @ ''$.''"
    "otherwise example_server = (\<lambda>q ps t. Inl syntax_error)"
    by (simp_all add: example_server_def adapter_server_def select_sql_def clause_open_def
        example_adapter_def)
  have unread: "read_select example_server q = None"
    by (simp add: read_select_def heads q_def clause_close_def plain_char_def)
  define T where "T = [row_of doc1, row_of doc4]"
  have clauses: "where_clauses example_env example_adapter [(quote_key, JStr ''x'')] =
      Inr ([clause_sql example_adapter quote_key], ps)"
    by (simp add: example_env_def table_env_def flat_dumps_def quoted_def ps_def)
  have joined: "select_sql example_adapter @ '' WHERE ''
      @ join_strs '' AND '' [clause_sql example_adapter quote_key] = q"
    by (simp add: select_sql_def clause_sql_def clause_open_def clause_close_def
        example_adapter_def quote_key_def q_def)
  have ex: "cur_execute example_env (Select q ps) (new_cursor T) =
      (Some syntax_error,
       \<lparr>store = T, executed = [Select q ps], rowcount = - 1, fetchall = []\<rparr>)"
    by (simp add: example_env_def table_env_def cur_execute_def new_cursor_def select_rows_def
        unread heads)
  have conn: "pool_connect example_env (connection_kwargs example_adapter) T = None"
    by (simp add: example_env_def table_env_def)
  have run: "filter_documents example_env example_adapter (Some [(quote_key, JStr ''x'')]) T =
    (Inl syntax_error,
     \<lparr>store = T, executed = [Select q ps], rowcount = - 1, fetchall = []\<rparr>)"
    unfolding filter_documents_def conn
    using joined by (simp add: clauses ex del: where_clauses.simps join_strs.simps)
  have holds: "json_member_is (flat_loads known_meta) flat_dumps (snd (snd (row_of doc4)))
      quote_key (flat_text (JStr ''x''))"
    by (simp add: json_member_is_def example_rows example_loads member_text_def flat_dumps_def
        del: flat_text.simps)
  show ?thesis
    using run holds unfolding T_def q_def ps_def by simp
qed

text \<open>
  For keys that are plain member names the text is the conjunction it is meant to be. On
  the table of the adapter, when every stored metadata text decodes (\<open>dec m\<close> is
  \<^verbatim>\<open>json.loads\<close> of the text \<open>m\<close>) and every filter value encodes (\<open>enc v\<close> is \<^verbatim>\<open>json.dumps\<close> of
  \<open>v\<close>): with no filters, and with the empty dictionary, the call returns all rows; with
  the items \<open>items\<close> it returns, in table order, exactly the rows whose decoded metadata
  is an object that has, for every item \<open>(k, v)\<close>, the top-level key \<open>k\<close> with a value whose
  JSON text is that of \<open>v\<close>. Each returned document has the id and content of its row and,
  as metadata, the decoding of the row's metadata text.
\<close>

theorem filter_documents_plain_keys:
  assumes dec: "\<forall>r \<in> set t. loads (snd (snd r)) = Inr (dec (snd (snd r)))"
    and enc: "\<forall>(k, v) \<in> set items. dumps v = Inr (enc v)"
    and plain: "\<forall>(k, v) \<in> set items. plain_key k"
  shows "fst (filter_documents (table_env dumps loads (adapter_server a loads dumps other))
                a None t) =
           Inr (map (\<lambda>(i, c, m). \<lparr>doc_id = i, content = c, metadata = dec m\<rparr>) t)
       \<and> fst (filter_documents (table_env dumps loads (adapter_server a loads dumps other))
                a (Some []) t) =
           Inr (map (\<lambda>(i, c, m). \<lparr>doc_id = i, content = c, metadata = dec m\<rparr>) t)
       \<and> fst (filter_documents (table_env dumps loads (adapter_server a loads dumps other))
                a (Some items) t) =
           Inr (map (\<lambda>(i, c, m). \<lparr>doc_id = i, content = c, metadata = dec m\<rparr>)
                  (filter (\<lambda>r. \<forall>(k, v) \<in> set items.
                             member_text dumps (dec (snd (snd r))) k = Some (enc v)) t))"
proof -
  have none: "\<forall>(k, v) \<in> set ([] :: (string \<times> json) list). dumps v = Inr (enc v)"
    "\<forall>(k, v) \<in> set ([] :: (string \<times> json) list). plain_key k"
    by simp_all
  have "fst (filter_documents (table_env dumps loads (adapter_server a loads dumps other))
        a None t) =
      Inr (map (\<lambda>(i, c, m). \<lparr>doc_id = i, content = c, metadata = dec m\<rparr>) t)"
    using filter_documents_table [OF dec none, where filters = None and a = a and other = other]
    by simp
  moreover have "fst (filter_documents
        (table_env dumps loads (adapter_server a loads dumps other)) a (Some []) t) =
      Inr (map (\<lambda>(i, c, m). \<lparr>doc_id = i, content = c, metadata = dec m\<rparr>) t)"
    using filter_documents_table [OF dec none, where filters = "Some []" and a = a
        and other = other]
    by simp
  moreover have "fst (filter_documents
        (table_env dumps loads (adapter_server a loads dumps other)) a (Some items) t) =
      Inr (map (\<lambda>(i, c, m). \<lparr>doc_id = i, content = c, metadata = dec m\<rparr>)
             (filter (\<lambda>r. \<forall>(k, v) \<in> set items.
                        member_text dumps (dec (snd (snd r))) k = Some (enc v)) t))"
    using filter_documents_table [OF dec enc plain, where filters = "Some items" and a = a
        and other = other]
    by simp
  ultimately show ?thesis by blast
qed

text \<open>
  Worked example: of the documents 1 (\<open>k = x\<close>), 2 (\<open>k = y\<close>) and 3 (\<open>k = x\<close>), the filter
  \<open>k = x\<close> returns 1 and 3.
\<close>

theorem filter_documents_plain_keys_witness:
  "fst (filter_documents example_env example_adapter None [row_of doc1, row_of doc2, row_of doc3]) =
     Inr [doc1, doc2, doc3]
   \<and> fst (filter_documents example_env example_adapter (Some [])
        [row_of doc1, row_of doc2, row_of doc3]) = Inr [doc1, doc2, doc3]
   \<and> fst (filter_documents example_env example_adapter (Some [(''k'', JStr ''x'')])
        [row_of doc1, row_of doc2, row_of doc3]) = Inr [doc1, doc3]"
proof -
  define dec where "dec = (\<lambda>m. case flat_loads known_meta m of Inr v \<Rightarrow> v | Inl e \<Rightarrow> JNull)"
  define t where "t = [row_of doc1, row_of doc2, row_of doc3]"
  define items where "items = [(''k'', JStr ''x'')]"
  note rows = example_rows and loads = example_loads
  have dec: "\<forall>r \<in> set t. flat_loads known_meta (snd (snd r)) = Inr (dec (snd (snd r)))"
    by (simp add: t_def rows dec_def loads del: flat_text.simps)
  have enc: "\<forall>(k, v) \<in> set items. flat_dumps v = Inr (flat_text v)"
    by (simp add: flat_dumps_def)
  have plain: "\<forall>(k, v) \<in> set items. plain_key k"
    by (simp add: items_def plain_key_def plain_char_def)
  have decoded: "map (\<lambda>(i, c, m). \<lparr>doc_id = i, content = c, metadata = dec m\<rparr>) t =
      [doc1, doc2, doc3]"
    by (simp add: t_def rows dec_def loads del: flat_text.simps)
       (simp add: doc1_def doc2_def doc3_def)
  have selected: "filter (\<lambda>r. \<forall>(k, v) \<in> set items.
        member_text flat_dumps (dec (snd (snd r))) k = Some (flat_text v)) t =
      [row_of doc1, row_of doc3]"
    by (simp add: t_def items_def rows dec_def loads member_text_def flat_dumps_def quoted_def
        del: flat_text.simps)
       (simp add: quoted_def)
  have decoded': "map (\<lambda>(i, c, m). \<lparr>doc_id = i, content = c, metadata = dec m\<rparr>)
      [row_of doc1, row_of doc3] = [doc1, doc3]"
    by (simp add: rows dec_def loads del: flat_text.simps) (simp add: doc1_def doc3_def)
  note inst = filter_documents_plain_keys [OF dec enc plain, where a = example_adapter
      and other = "\<lambda>q ps t. Inl syntax_error"]
  show ?thesis
    using inst [unfolded selected decoded decoded']
    unfolding example_env_def example_server_def t_def items_def .
qed

text \<open>The statement the test suite expects for the filter \<^verbatim>\<open>{"key": "value1"}\<close>.\<close>

lemma filter_documents_test_statement:
  "executed (snd (filter_documents example_env example_adapter
      (Some [(''key'', JStr ''value1'')]) [])) =
     [Select (''SELECT id, content, metadata FROM test_documents WHERE JSON_EXTRACT(metadata, ''
               @ [CHR 0x27] @ ''$.key'' @ [CHR 0x27] @ '') = %s'')
        [[CHR 0x22] @ ''value1'' @ [CHR 0x22]]]"
  by (simp add: filter_documents_def example_env_def table_env_def flat_dumps_def
      cur_execute_def new_cursor_def select_sql_def clause_sql_def clause_open_def
      clause_close_def example_adapter_def quoted_def select_rows_def
      split: option.splits sum.splits prod.splits)

subsection \<open>The connection URI\<close>

text \<open>
  Claim C9. When \<^verbatim>\<open>urlparse\<close> accepts the URI and its port is readable, \<^verbatim>\<open>_parse_uri\<close>
  returns the connection parameters with \<^verbatim>\<open>host\<close>, \<^verbatim>\<open>user\<close> and \<^verbatim>\<open>password\<close> set to the
  URI's host name, user name and password (\<^verbatim>\<open>None\<close> where the URI has none), \<^verbatim>\<open>port\<close> set
  to 3306 when the URI has no port and to the URI's port when that is not 0, \<^verbatim>\<open>database\<close>
  set to the path without its surrounding slashes when the path is neither empty nor
  \<^verbatim>\<open>/\<close>, and \<^verbatim>\<open>database\<close> as it was before when the path is empty or \<^verbatim>\<open>/\<close>. No other
  parameter changes.
\<close>

theorem parse_uri_components:
  assumes parsed: "urlparse uri = Inr parsed"
    and po: "port parsed = Inr po"
  shows "\<exists>kw'. parse_uri urlparse uri kw = Inr kw'
       \<and> kw' ''host'' = Some (opt_str (hostname parsed))
       \<and> kw' ''user'' = Some (opt_str (username parsed))
       \<and> kw' ''password'' = Some (opt_str (password parsed))
       \<and> (po = None \<longrightarrow> kw' ''port'' = Some (PInt 3306))
       \<and> (\<forall>n. po = Some n \<and> n \<noteq> 0 \<longrightarrow> kw' ''port'' = Some (PInt n))
       \<and> (path parsed \<noteq> [] \<and> path parsed \<noteq> ''/'' \<longrightarrow>
            kw' ''database'' = Some (PStr (strip_char CHR ''/'' (path parsed))))
       \<and> (path parsed = [] \<or> path parsed = ''/'' \<longrightarrow> kw' ''database'' = kw ''database'')
       \<and> (\<forall>k. k \<notin> {''host'', ''port'', ''user'', ''password'', ''database''} \<longrightarrow> kw' k = kw k)"
  using assms by (auto simp: parse_uri_def Let_def)

text \<open>
  Worked example: the URI of the test suite, and a URI with neither port nor path given
  together with a database parameter.
\<close>

theorem parse_uri_components_witness:
  "(\<exists>kw'. parse_uri example_urlparse (PStr ''mock://localhost:3306/test'') Map.empty = Inr kw'
       \<and> kw' ''host'' = Some (PStr ''localhost'') \<and> kw' ''user'' = Some PNone
       \<and> kw' ''password'' = Some PNone \<and> kw' ''port'' = Some (PInt 3306)
       \<and> kw' ''database'' = Some (PStr ''test''))
   \<and> (\<exists>kw'. parse_uri example_urlparse (PStr ''mock://localhost'')
         [''database'' \<mapsto> PStr ''prod''] = Inr kw'
       \<and> kw' ''host'' = Some (PStr ''localhost'') \<and> kw' ''port'' = Some (PInt 3306)
       \<and> kw' ''database'' = Some (PStr ''prod''))"
proof -
  define p1 where "p1 = \<lparr>hostname = Some ''localhost'', port = Inr (Some (3306 :: int)),
      username = None, password = None, path = ''/test''\<rparr>"
  define p2 where "p2 = \<lparr>hostname = Some ''localhost'', port = Inr (None :: int option),
      username = None, password = None, path = []\<rparr>"
  have u1: "example_urlparse (PStr ''mock://localhost:3306/test'') = Inr p1"
    by (simp add: example_urlparse_def p1_def)
  have u2: "example_urlparse (PStr ''mock://localhost'') = Inr p2"
    by (simp add: example_urlparse_def p2_def)
  have po1: "port p1 = Inr (Some 3306)" by (simp add: p1_def)
  have po2: "port p2 = Inr None" by (simp add: p2_def)
  have strip: "strip_char CHR ''/'' ''/test'' = ''test''" by (simp add: strip_char_def)
  show ?thesis
    using parse_uri_components [where urlparse = example_urlparse
        and uri = "PStr ''mock://localhost:3306/test''" and parsed = p1 and po = "Some 3306"
        and kw = Map.empty]
      parse_uri_components [where urlparse = example_urlparse
        and uri = "PStr ''mock://localhost''" and parsed = p2 and po = None
        and kw = "[''database'' \<mapsto> PStr ''prod'']"]
      u1 u2 po1 po2
    by (simp add: p1_def p2_def opt_str_def strip) blast
qed

subsection \<open>from_dict on a foreign type\<close>

text \<open>
  Claim C6. When the entry \<^verbatim>\<open>type\<close> of the dictionary is absent or is anything but the
  string \<^verbatim>\<open>SingleStoreDocumentStore\<close>, \<^verbatim>\<open>from_dict\<close> raises \<^verbatim>\<open>ValueError\<close> (the class the
  code uses for a configuration error) with the message
  \<^verbatim>\<open>Incompatible document store type: <the entry, None when absent>\<close>; nothing is
  constructed and the database is not touched.
\<close>

theorem from_dict_type_mismatch:
  assumes "data ''type'' \<noteq> Some (PStr ''SingleStoreDocumentStore'')"
  shows "from_dict urlparse queue_pool env data db =
           (Inl (ValueError (''Incompatible document store type: '' @
                   py_str (case data ''type'' of None \<Rightarrow> PNone | Some v \<Rightarrow> v))), db)"
  using assms by (auto simp: from_dict_def Let_def split: option.splits)

text \<open>
  Worked example: another type name, no type entry, and a type entry that is a number.
\<close>

theorem from_dict_type_mismatch_witness:
  "from_dict example_urlparse any_pool example_env [''type'' \<mapsto> PStr ''InMemoryDocumentStore''] [] =
     (Inl (ValueError ''Incompatible document store type: InMemoryDocumentStore''), [])
   \<and> from_dict example_urlparse any_pool example_env [''table_name'' \<mapsto> PStr ''docs''] [] =
     (Inl (ValueError ''Incompatible document store type: None''), [])
   \<and> from_dict example_urlparse any_pool example_env [''type'' \<mapsto> PInt 7] [] =
     (Inl (ValueError ''Incompatible document store type: 7''), [])"
  using from_dict_type_mismatch [of "[''type'' \<mapsto> PStr ''InMemoryDocumentStore'']"
      example_urlparse any_pool example_env "[]"]
    from_dict_type_mismatch [of "[''table_name'' \<mapsto> PStr ''docs'']"
      example_urlparse any_pool example_env "[]"]
    from_dict_type_mismatch [of "[''type'' \<mapsto> PInt 7]"
      example_urlparse any_pool example_env "[]"]
  by (simp add: digit_def)

subsection \<open>The round trip through to_dict\<close>

text \<open>
  Claim C5 fails as stated: \<^verbatim>\<open>uri\<close> is a construction parameter and \<^verbatim>\<open>to_dict\<close> has no
  entry for it. The adapter keeps a URI only as the connection parameters parsed from it;
  the adapter of the test suite, constructed from its URI, serialises without \<^verbatim>\<open>uri\<close>.
\<close>

theorem to_dict_uri_counterexample:
  "fst (init example_urlparse any_pool strict_env
          [''uri'' \<mapsto> PStr ''mock://localhost:3306/test'',
           ''table_name'' \<mapsto> PStr ''test_documents''] []) = Inr example_adapter
   \<and> to_dict example_adapter ''uri'' = None"
proof -
  define args where "args = [''uri'' \<mapsto> PStr ''mock://localhost:3306/test'',
      ''table_name'' \<mapsto> PStr ''test_documents'']"
  have kw: "args |` (- param_names) = Map.empty"
    by (rule ext) (simp add: args_def restrict_map_def param_names_def)
  have named: "arg args ''uri'' PNone = PStr ''mock://localhost:3306/test''"
    "arg args ''table_name'' (PStr ''documents'') = PStr ''test_documents''"
    "arg args ''content_field'' (PStr ''content'') = PStr ''content''"
    "arg args ''metadata_field'' (PStr ''metadata'') = PStr ''metadata''"
    "arg args ''id_field'' (PStr ''id'') = PStr ''id''"
    "arg args ''pool_size'' (PInt 5) = PInt 5"
    "arg args ''max_overflow'' (PInt 10) = PInt 10"
    "arg args ''timeout'' (PInt 30) = PInt 30"
    by (simp_all add: arg_def args_def)
  have parsed: "parse_uri example_urlparse (PStr ''mock://localhost:3306/test'') Map.empty =
      Inr (connection_kwargs example_adapter)"
    by (simp add: parse_uri_def example_urlparse_def opt_str_def strip_char_def
        example_adapter_def)
  have built: "fst (init example_urlparse any_pool strict_env args []) = Inr example_adapter"
    unfolding init_def Let_def kw named
    by (simp add: parsed any_pool_def create_table_def cur_execute_def new_cursor_def
        strict_env_def example_adapter_def)
  have "to_dict example_adapter ''uri'' = None"
    by (simp add: to_dict_def map_add_def example_adapter_def)
  with built show ?thesis unfolding args_def by simp
qed

text \<open>
  Claim C5, amended. Take a connector that, like \<^verbatim>\<open>singlestoredb.connect\<close>, has no parameter
  named \<^verbatim>\<open>type\<close>, and an adapter whose connection parameters hold no key that is a named
  parameter of \<^verbatim>\<open>__init__\<close> (true of every adapter \<^verbatim>\<open>__init__\<close> returns). When the pool
  constructor, the connector and the CREATE TABLE accept again,
  \<^verbatim>\<open>from_dict(to_dict(adapter))\<close> constructs an adapter equal to the original: same table
  name, column names, pool parameters and connection parameters. \<^verbatim>\<open>to_dict\<close> maps \<^verbatim>\<open>type\<close>
  to the class name, each of the seven configuration keys to the adapter's value and
  every connection parameter to its value; it has no entry \<^verbatim>\<open>uri\<close>.
\<close>

theorem from_dict_to_dict:
  assumes wf: "dom (connection_kwargs a) \<inter> param_names = {}"
    and refuses: "\<forall>kw db. kw ''type'' \<noteq> None \<longrightarrow> pool_connect env kw db \<noteq> None"
    and pool: "queue_pool (pool_size a) (max_overflow a) (timeout a) = None"
    and conn: "pool_connect env (connection_kwargs a) db = None"
    and ct: "execute env CreateTable db = (Inr r, db')"
  shows "from_dict urlparse queue_pool env (to_dict a) db = (Inr a, db')
       \<and> to_dict a ''type'' = Some (PStr ''SingleStoreDocumentStore'')
       \<and> to_dict a ''table_name'' = Some (table_name a)
       \<and> to_dict a ''content_field'' = Some (content_field a)
       \<and> to_dict a ''metadata_field'' = Some (metadata_field a)
       \<and> to_dict a ''id_field'' = Some (id_field a)
       \<and> to_dict a ''pool_size'' = Some (pool_size a)
       \<and> to_dict a ''max_overflow'' = Some (max_overflow a)
       \<and> to_dict a ''timeout'' = Some (timeout a)
       \<and> to_dict a ''uri'' = None
       \<and> (\<forall>k v. connection_kwargs a k = Some v \<longrightarrow> to_dict a k = Some v)"
proof -
  have "connection_kwargs a ''type'' = None" using refuses conn by blast
  then have nt: "''type'' \<notin> dom (connection_kwargs a)" by (simp add: domIff)
  note fixed = to_dict_fixed [OF wf nt]
  define data where "data = (to_dict a)(''type'' := None)"
  have kw: "data |` (- param_names) = connection_kwargs a"
    unfolding data_def using wf nt by (rule to_dict_pop_type)
  have args: "arg data ''uri'' PNone = PNone"
    "arg data ''table_name'' (PStr ''documents'') = table_name a"
    "arg data ''content_field'' (PStr ''content'') = content_field a"
    "arg data ''metadata_field'' (PStr ''metadata'') = metadata_field a"
    "arg data ''id_field'' (PStr ''id'') = id_field a"
    "arg data ''pool_size'' (PInt 5) = pool_size a"
    "arg data ''max_overflow'' (PInt 10) = max_overflow a"
    "arg data ''timeout'' (PInt 30) = timeout a"
    by (simp_all add: arg_def data_def fixed)
  have ct': "cur_execute env CreateTable (new_cursor db) =
      (None, \<lparr>store = db', executed = [CreateTable], rowcount = fst r, fetchall = snd r\<rparr>)"
    using ct by (simp add: cur_execute_def new_cursor_def case_prod_beta)
  have "init urlparse queue_pool env data db = (Inr a, db')"
    by (simp add: init_def Let_def kw args pool create_table_def conn ct')
  then have "from_dict urlparse queue_pool env (to_dict a) db = (Inr a, db')"
    by (simp add: from_dict_def Let_def fixed(1) data_def)
  moreover have "\<forall>k v. connection_kwargs a k = Some v \<longrightarrow> to_dict a k = Some v"
    by (simp add: to_dict_def map_add_def)
  ultimately show ?thesis using fixed by simp
qed

text \<open>
  Worked example: the adapter of the test suite, whose connection parameters come from
  its URI.
\<close>

theorem from_dict_to_dict_witness:
  "from_dict example_urlparse any_pool strict_env (to_dict example_adapter) [] =
     (Inr example_adapter, [])
   \<and> to_dict example_adapter ''type'' = Some (PStr ''SingleStoreDocumentStore'')
   \<and> to_dict example_adapter ''table_name'' = Some (PStr ''test_documents'')
   \<and> to_dict example_adapter ''pool_size'' = Some (PInt 5)
   \<and> to_dict example_adapter ''host'' = Some (PStr ''localhost'')
   \<and> to_dict example_adapter ''uri'' = None"
proof -
  have wf: "dom (connection_kwargs example_adapter) \<inter> param_names = {}"
    by (simp add: example_adapter_def param_names_def)
  have refuses: "\<forall>kw db. kw ''type'' \<noteq> None \<longrightarrow> pool_connect strict_env kw db \<noteq> None"
    by (simp add: strict_env_def)
  have pool: "any_pool (pool_size example_adapter) (max_overflow example_adapter)
      (timeout example_adapter) = None"
    by (simp add: any_pool_def)
  have conn: "pool_connect strict_env (connection_kwargs example_adapter) [] = None"
    by (simp add: strict_env_def example_adapter_def)
  have ct: "execute strict_env CreateTable [] = (Inr (0, []), [])"
    by (simp add: strict_env_def)
  have host: "connection_kwargs example_adapter ''host'' = Some (PStr ''localhost'')"
    by (simp add: example_adapter_def)
  have tn: "table_name example_adapter = PStr ''test_documents''"
    "pool_size example_adapter = PInt 5"
    by (simp_all add: example_adapter_def)
  show ?thesis
    using from_dict_to_dict [where a = example_adapter and queue_pool = any_pool
        and env = strict_env and db = "[]" and r = "(0, [])" and db' = "[]"
        and urlparse = example_urlparse] wf refuses pool conn ct host tn
    by simp
qed

subsection \<open>Construction without connection parameters\<close>

text \<open>
  Claim C7 fails as stated: \<^verbatim>\<open>__init__\<close> checks nothing. Called with no URI and no other
  parameter, on a connector that accepts the empty parameter set, it returns an adapter.
\<close>

theorem init_without_parameters_counterexample:
  "fst (init example_urlparse any_pool example_env Map.empty []) = Inr (default_adapter Map.empty)"
  by (simp add: init_def Let_def arg_def any_pool_def create_table_def cur_execute_def
      new_cursor_def example_env_def table_env_def default_adapter_def)

text \<open>
  Claim C7, amended. When the URI is absent, \<^verbatim>\<open>None\<close> or empty, construction hands the
  explicit connection parameters to the connector as they are; it fails exactly when the
  pool constructor, the pooled connect or the CREATE TABLE raises, with that exception,
  and otherwise returns the adapter.
\<close>

theorem init_without_uri:
  assumes nouri: "\<not> truthy (arg args ''uri'' PNone)"
  shows "fst (init urlparse queue_pool env args db) =
     (case queue_pool (arg args ''pool_size'' (PInt 5)) (arg args ''max_overflow'' (PInt 10))
             (arg args ''timeout'' (PInt 30)) of
        Some e \<Rightarrow> Inl e
      | None \<Rightarrow>
          (case pool_connect env (args |` (- param_names)) db of
             Some e \<Rightarrow> Inl e
           | None \<Rightarrow>
               (case fst (execute env CreateTable db) of
                  Inl e \<Rightarrow> Inl e
                | Inr r \<Rightarrow>
                    Inr \<lparr>table_name = arg args ''table_name'' (PStr ''documents''),
                         content_field = arg args ''content_field'' (PStr ''content''),
                         metadata_field = arg args ''metadata_field'' (PStr ''metadata''),
                         id_field = arg args ''id_field'' (PStr ''id''),
                         pool_size = arg args ''pool_size'' (PInt 5),
                         max_overflow = arg args ''max_overflow'' (PInt 10),
                         timeout = arg args ''timeout'' (PInt 30),
                         connection_kwargs = args |` (- param_names)\<rparr>)))"
  using nouri
  by (simp add: init_def Let_def create_table_def cur_execute_def new_cursor_def
      split: option.splits sum.splits prod.splits)

text \<open>
  Worked example: no parameters at all, on a connector that accepts and on one that cannot
  reach its server.
\<close>

theorem init_without_uri_witness:
  "fst (init example_urlparse any_pool example_env Map.empty []) = Inr (default_adapter Map.empty)
   \<and> fst (init example_urlparse any_pool offline_env Map.empty []) = Inl connection_refused"
proof -
  have nouri: "\<not> truthy (arg Map.empty ''uri'' PNone)" by (simp add: arg_def)
  have "fst (init example_urlparse any_pool example_env Map.empty []) =
      Inr (default_adapter Map.empty)"
    unfolding init_without_uri [OF nouri]
    by (simp add: any_pool_def example_env_def table_env_def arg_def default_adapter_def)
  moreover have "fst (init example_urlparse any_pool offline_env Map.empty []) =
      Inl connection_refused"
    unfolding init_without_uri [OF nouri]
    by (simp add: any_pool_def offline_env_def)
  ultimately show ?thesis by simp
qed

end
